theory Spec2Isabelle
  imports Main
begin

section \<open>Data model of the launcher\<close>

text \<open>
  The theory embeds \<^verbatim>\<open>src/assets/launcher/launcher.c\<close>, \<^verbatim>\<open>tray_menu.c\<close> and the
  tokenizer of \<^verbatim>\<open>compat.h\<close>. A C string is a \<open>string\<close> holding the bytes before the
  terminating NUL. A \<open>DWORD\<close> (process id) and a \<open>HANDLE\<close> are natural numbers, with
  \<open>0\<close> for \<open>NULL\<close>; no arithmetic is done on them by the code.
\<close>

type_synonym DWORD = nat
type_synonym HANDLE = nat

abbreviation MAX_PATH_LEN :: nat where "MAX_PATH_LEN \<equiv> 1024"
abbreviation MAX_SEQUENCE_LEN :: nat where "MAX_SEQUENCE_LEN \<equiv> 2048"
abbreviation MAX_NAME_LEN :: nat where "MAX_NAME_LEN \<equiv> 256"
abbreviation MAX_CMD_LEN :: nat where "MAX_CMD_LEN \<equiv> 4096"
abbreviation STILL_ACTIVE :: nat where "STILL_ACTIVE \<equiv> 259"

record GameConfiguration =
  executable :: string
  directory :: string
  name :: string
  iso_path :: string
  controller_mapper_app :: string
  controller_mapper_options :: string
  controller_mapper_arguments :: string
  borderless_windowing_app :: string
  borderless_options :: string
  borderless_arguments :: string
  multimonitor_tool :: string
  multimonitor_options :: string
  multimonitor_arguments :: string
  player1_profile :: string
  player2_profile :: string
  mediacenter_profile :: string
  mm_game_config :: string
  mm_desktop_config :: string
  cloud_app :: string
  cloud_app_options :: string
  cloud_app_arguments :: string
  disc_mount_app :: string
  disc_mount_options :: string
  disc_mount_arguments :: string
  disc_mount_wait :: bool
  disc_unmount_app :: string
  disc_unmount_options :: string
  disc_unmount_arguments :: string
  disc_unmount_wait :: bool
  run_as_admin :: bool
  hide_taskbar :: bool
  borderless :: string
  use_kill_list :: bool
  terminate_borderless_on_exit :: bool
  kill_list :: string
  backup_saves :: bool
  max_backups :: int
  pre_launch_app_1 :: string
  pre_launch_app_1_options :: string
  pre_launch_app_1_arguments :: string
  pre_launch_app_2 :: string
  pre_launch_app_2_options :: string
  pre_launch_app_2_arguments :: string
  pre_launch_app_3 :: string
  pre_launch_app_3_options :: string
  pre_launch_app_3_arguments :: string
  pre_launch_app_1_wait :: bool
  pre_launch_app_2_wait :: bool
  pre_launch_app_3_wait :: bool
  post_launch_app_1 :: string
  post_launch_app_1_options :: string
  post_launch_app_1_arguments :: string
  post_launch_app_2 :: string
  post_launch_app_2_options :: string
  post_launch_app_2_arguments :: string
  post_launch_app_3 :: string
  post_launch_app_3_options :: string
  post_launch_app_3_arguments :: string
  just_after_launch_app :: string
  just_after_launch_options :: string
  just_after_launch_arguments :: string
  just_before_exit_app :: string
  just_before_exit_options :: string
  just_before_exit_arguments :: string
  post_launch_app_1_wait :: bool
  post_launch_app_2_wait :: bool
  post_launch_app_3_wait :: bool
  just_after_launch_wait :: bool
  just_before_exit_wait :: bool
  launch_sequence :: string
  exit_sequence :: string

text \<open>\<^verbatim>\<open>memset(&G_CONFIG, 0, sizeof(GameConfiguration))\<close>: every string empty, every flag 0.\<close>

definition zero_config :: GameConfiguration where
  "zero_config = \<lparr> executable = [], directory = [], name = [], iso_path = [],
     controller_mapper_app = [], controller_mapper_options = [],
     controller_mapper_arguments = [], borderless_windowing_app = [],
     borderless_options = [], borderless_arguments = [], multimonitor_tool = [],
     multimonitor_options = [], multimonitor_arguments = [], player1_profile = [],
     player2_profile = [], mediacenter_profile = [], mm_game_config = [],
     mm_desktop_config = [], cloud_app = [], cloud_app_options = [],
     cloud_app_arguments = [], disc_mount_app = [], disc_mount_options = [],
     disc_mount_arguments = [], disc_mount_wait = False, disc_unmount_app = [],
     disc_unmount_options = [], disc_unmount_arguments = [], disc_unmount_wait = False,
     run_as_admin = False, hide_taskbar = False, borderless = [], use_kill_list = False,
     terminate_borderless_on_exit = False, kill_list = [], backup_saves = False,
     max_backups = 0, pre_launch_app_1 = [], pre_launch_app_1_options = [],
     pre_launch_app_1_arguments = [], pre_launch_app_2 = [],
     pre_launch_app_2_options = [], pre_launch_app_2_arguments = [],
     pre_launch_app_3 = [], pre_launch_app_3_options = [],
     pre_launch_app_3_arguments = [], pre_launch_app_1_wait = False,
     pre_launch_app_2_wait = False, pre_launch_app_3_wait = False,
     post_launch_app_1 = [], post_launch_app_1_options = [],
     post_launch_app_1_arguments = [], post_launch_app_2 = [],
     post_launch_app_2_options = [], post_launch_app_2_arguments = [],
     post_launch_app_3 = [], post_launch_app_3_options = [],
     post_launch_app_3_arguments = [], just_after_launch_app = [],
     just_after_launch_options = [], just_after_launch_arguments = [],
     just_before_exit_app = [], just_before_exit_options = [],
     just_before_exit_arguments = [], post_launch_app_1_wait = False,
     post_launch_app_2_wait = False, post_launch_app_3_wait = False,
     just_after_launch_wait = False, just_before_exit_wait = False,
     launch_sequence = [], exit_sequence = [] \<rparr>"

record PROCESS_INFORMATION =
  hProcess :: HANDLE
  hThread :: HANDLE
  dwProcessId :: DWORD
  dwThreadId :: DWORD

definition zero_pi :: PROCESS_INFORMATION where
  "zero_pi = \<lparr> hProcess = 0, hThread = 0, dwProcessId = 0, dwThreadId = 0 \<rparr>"

text \<open>
  A node of the linked list \<^verbatim>\<open>G_TRACKED_PROCESSES\<close>; the list itself is a HOL list
  whose head is the node the global pointer points to.
\<close>

record TrackedProcess =
  name :: string
  pi :: PROCESS_INFORMATION

record TrayMenu =
  hwnd :: HANDLE
  hmenu :: HANDLE
  running :: bool
  ini_path :: string
  lnk_path :: string

subsection \<open>The operating system, as far as the launcher observes it\<close>

text \<open>
  A process object of the system: the three \<^verbatim>\<open>PROCESSENTRY32\<close> fields the launcher
  reads, and whether the process still runs. An object that has exited stays in the
  table (a handle to it may still be open) and reports its exit code.
\<close>

datatype proc_status = Running | Exited nat

record os_process =
  th32ProcessID :: DWORD
  th32ParentProcessID :: DWORD
  szExeFile :: string
  status :: proc_status

text \<open>The calls with an effect outside the program, in the order they are made.\<close>

datatype os_call =
    CreateProcessA string "string option"
  | ShellExecuteA string string "string option"
  | TerminateProcess DWORD
  | CloseHandle HANDLE
  | ShowWindow HANDLE bool
  | DeleteFileA string
  | Sleep nat
  | Shell_NotifyIcon_Delete
  | DestroyMenu HANDLE
  | DestroyWindow HANDLE
  | ExitProcess nat

text \<open>
  The state the code runs on: the globals of \<^verbatim>\<open>launcher.c\<close> and \<^verbatim>\<open>tray_menu.c\<close>
  under their own names, and the part of the system they read and change (\<open>os_\<close>).
  What the system decides on its own is a field of the state: whether a heap
  allocation succeeds, whether a file can be opened for writing, what
  \<^verbatim>\<open>CreateProcessA\<close> starts, whether and how a process that is waited for exits.
\<close>

record world =
  G_CONFIG :: GameConfiguration
  G_GAME_PROCESS_INFO :: PROCESS_INFORMATION
  G_TRACKED_PROCESSES :: "TrackedProcess list"
  G_BORDERLESS_PROCESS :: HANDLE
  G_TASKBAR_HWND :: HANDLE
  G_TASKBAR_WAS_HIDDEN :: bool
  G_LOG_PATH :: string
  G_HOME_DIR :: string
  G_PID_FILE :: string
  G_IS_ADMIN :: bool
  G_TRAY_MENU :: TrayMenu
  os_current_pid :: DWORD
  os_processes :: "os_process list"
  os_snapshot_ok :: bool
  os_handles :: "HANDLE \<rightharpoonup> DWORD"
  os_last_handle :: HANDLE
  os_next_pid :: DWORD
  os_spawn :: "string \<Rightarrow> string option \<Rightarrow> string option"
  os_exit_code_of :: "DWORD \<Rightarrow> nat option"
  os_shell_execute :: "string \<Rightarrow> string \<Rightarrow> nat"
  os_heap_ok :: bool
  os_files :: "string \<rightharpoonup> string"
  os_writable :: "string \<Rightarrow> bool"
  os_ini_parse :: "string \<Rightarrow> int \<times> GameConfiguration"
  os_is_admin :: bool
  os_shell_traywnd :: HANDLE
  os_taskbar_visible :: bool
  os_calls :: "os_call list"
  console :: "string list"
  log_lines :: "(string \<times> string \<times> string) list"

definition os_call :: "os_call \<Rightarrow> world \<Rightarrow> world" where
  "os_call c st = st\<lparr> os_calls := os_calls st @ [c] \<rparr>"

subsection \<open>Logging\<close>

text \<open>
  \<^verbatim>\<open>log_message\<close> appends a line to the file \<^verbatim>\<open>G_LOG_PATH\<close>; the model keeps the
  path, the level and the message of each line (the time stamp is left out).
\<close>

definition log_message :: "string \<Rightarrow> string \<Rightarrow> world \<Rightarrow> world" where
  "log_message level message st =
     (if G_LOG_PATH st = [] then st
      else if \<not> os_writable st (G_LOG_PATH st) then st
      else st\<lparr> log_lines := log_lines st @ [(G_LOG_PATH st, level, message)] \<rparr>)"

definition show_message :: "string \<Rightarrow> world \<Rightarrow> world" where
  "show_message message st =
     log_message ''INFO'' message (st\<lparr> console := console st @ [message] \<rparr>)"

subsection \<open>String utilities\<close>

text \<open>
  \<^verbatim>\<open>snprintf(buf, n, ...)\<close> keeps the first \<open>n - 1\<close> bytes of the formatted text;
  \<^verbatim>\<open>strncat(dest, src, n)\<close> appends at most \<open>n\<close> bytes of \<open>src\<close>.
\<close>

definition snprintf :: "nat \<Rightarrow> string \<Rightarrow> string" where
  "snprintf n s = take (n - 1) s"

definition strncat :: "string \<Rightarrow> string \<Rightarrow> nat \<Rightarrow> string" where
  "strncat dest src n = dest @ take n src"

definition is_trim_char :: "char \<Rightarrow> bool" where
  "is_trim_char c = (c = CHR '' '' \<or> c = CHR 0x09 \<or> c = CHR 0x0A \<or> c = CHR 0x0D)"

text \<open>The second loop of \<^verbatim>\<open>trim_whitespace\<close>: cut trailing blanks, one at a time.\<close>

function trim_trailing :: "string \<Rightarrow> string" where
  "trim_trailing s =
     (if length s > 0 \<and> is_trim_char (s ! (length s - 1)) then trim_trailing (butlast s)
      else s)"
  by pat_completeness auto
termination
  by (relation "measure length") auto

declare trim_trailing.simps [simp del]

definition trim_whitespace :: "string \<Rightarrow> string" where
  "trim_whitespace str = trim_trailing (dropWhile is_trim_char str)"

section \<open>Process Registry\<close>

text \<open>
  \<^verbatim>\<open>add_tracked_process\<close> allocates a node, copies at most 255 bytes of the name and
  links the node in front of the list. It looks at no existing node.
\<close>

definition add_tracked_process :: "string \<Rightarrow> PROCESS_INFORMATION \<Rightarrow> world \<Rightarrow> world" where
  "add_tracked_process nm p st =
     (if \<not> os_heap_ok st then st
      else st\<lparr> G_TRACKED_PROCESSES :=
                 \<lparr> name = take (MAX_NAME_LEN - 1) nm, pi = p \<rparr> # G_TRACKED_PROCESSES st \<rparr>)"

text \<open>The loop of \<^verbatim>\<open>remove_tracked_process\<close>: unlink the first node of that name, return.\<close>

fun unlink_first :: "string \<Rightarrow> TrackedProcess list \<Rightarrow> TrackedProcess list" where
  "unlink_first nm [] = []"
| "unlink_first nm (tp # rest) =
     (if name tp = nm then rest else tp # unlink_first nm rest)"

definition remove_tracked_process :: "string \<Rightarrow> world \<Rightarrow> world" where
  "remove_tracked_process nm st =
     st\<lparr> G_TRACKED_PROCESSES := unlink_first nm (G_TRACKED_PROCESSES st) \<rparr>"

fun find_node :: "string \<Rightarrow> TrackedProcess list \<Rightarrow> TrackedProcess option" where
  "find_node nm [] = None"
| "find_node nm (tp # rest) = (if name tp = nm then Some tp else find_node nm rest)"

definition find_tracked_process :: "string \<Rightarrow> world \<Rightarrow> TrackedProcess option" where
  "find_tracked_process nm st = find_node nm (G_TRACKED_PROCESSES st)"


subsection \<open>A small system to run the code on\<close>

text \<open>
  The globals as the C initialisers leave them, on a system with a shell process, the
  launcher itself (process 100) and a visible taskbar window (handle 7).
\<close>

definition boot_world :: world where
  "boot_world = \<lparr> G_CONFIG = zero_config, G_GAME_PROCESS_INFO = zero_pi,
     G_TRACKED_PROCESSES = [], G_BORDERLESS_PROCESS = 0, G_TASKBAR_HWND = 0,
     G_TASKBAR_WAS_HIDDEN = False, G_LOG_PATH = [], G_HOME_DIR = [], G_PID_FILE = [],
     G_IS_ADMIN = False,
     G_TRAY_MENU = \<lparr> hwnd = 0, hmenu = 0, running = False, ini_path = [], lnk_path = [] \<rparr>,
     os_current_pid = 100,
     os_processes =
       [\<lparr> th32ProcessID = 4, th32ParentProcessID = 0, szExeFile = ''explorer.exe'',
          status = Running \<rparr>,
        \<lparr> th32ProcessID = 100, th32ParentProcessID = 4, szExeFile = ''launcher.exe'',
          status = Running \<rparr>],
     os_snapshot_ok = True, os_handles = Map.empty, os_last_handle = 7, os_next_pid = 200,
     os_spawn = (\<lambda>cmd wd. None), os_exit_code_of = (\<lambda>p. Some 0),
     os_shell_execute = (\<lambda>verb file. 2), os_heap_ok = True, os_files = Map.empty,
     os_writable = (\<lambda>path. True), os_ini_parse = (\<lambda>path. (0, zero_config)),
     os_is_admin = False, os_shell_traywnd = 7, os_taskbar_visible = True,
     os_calls = [], console = [], log_lines = [] \<rparr>"

definition mapper_pi_1 :: PROCESS_INFORMATION where
  "mapper_pi_1 = \<lparr> hProcess = 8, hThread = 9, dwProcessId = 200, dwThreadId = 201 \<rparr>"

definition mapper_pi_2 :: PROCESS_INFORMATION where
  "mapper_pi_2 = \<lparr> hProcess = 10, hThread = 11, dwProcessId = 204, dwThreadId = 205 \<rparr>"

section \<open>Properties of the Process Registry\<close>

lemma unlink_first_absent:
  "nm \<notin> name ` set xs \<Longrightarrow> unlink_first nm (xs @ e # ys) = xs @ (if name e = nm then ys else e # unlink_first nm ys)"
  by (induction xs) auto

lemma find_node_absent:
  "nm \<notin> name ` set xs \<Longrightarrow> find_node nm (xs @ ys) = find_node nm ys"
  by (induction xs) auto

lemma find_node_present:
  "e \<in> set xs \<Longrightarrow> find_node (name e) xs \<noteq> None"
  by (induction xs) auto

text \<open>
  C4, as the code has it. \<^verbatim>\<open>add_tracked_process\<close> never overwrites: when the allocation
  succeeds it puts a new node (the name cut to 255 bytes) in front of the list and keeps
  every earlier node, makes no system call and leaves every handle open. So the names
  stay pairwise different exactly when they were and the new name was not tracked yet;
  adding a name that is already tracked leaves two nodes of that name in the list.
\<close>

theorem add_tracked_process_prepends:
  assumes "os_heap_ok st"
  shows "G_TRACKED_PROCESSES (add_tracked_process nm p st) =
           \<lparr> name = take (MAX_NAME_LEN - 1) nm, pi = p \<rparr> # G_TRACKED_PROCESSES st
         \<and> os_calls (add_tracked_process nm p st) = os_calls st
         \<and> os_handles (add_tracked_process nm p st) = os_handles st
         \<and> distinct (map name (G_TRACKED_PROCESSES (add_tracked_process nm p st))) =
             (distinct (map name (G_TRACKED_PROCESSES st))
              \<and> take (MAX_NAME_LEN - 1) nm \<notin> name ` set (G_TRACKED_PROCESSES st))"
  using assms by (auto simp: add_tracked_process_def)

theorem add_tracked_process_prepends_witness:
  "os_heap_ok boot_world
   \<and> G_TRACKED_PROCESSES (add_tracked_process ''controller_mapper'' mapper_pi_1 boot_world) =
       [\<lparr> name = ''controller_mapper'', pi = mapper_pi_1 \<rparr>]
   \<and> distinct (map name
       (G_TRACKED_PROCESSES (add_tracked_process ''controller_mapper'' mapper_pi_1 boot_world)))"
proof -
  have h: "os_heap_ok boot_world" by (simp add: boot_world_def)
  have e: "G_TRACKED_PROCESSES boot_world = []" by (simp add: boot_world_def)
  show ?thesis
    using add_tracked_process_prepends [OF h, of "''controller_mapper''" mapper_pi_1] h e
    by simp
qed

text \<open>
  The claim C4 as written fails: two calls with the same name leave two nodes of that
  name, the older one still holding its process information.
\<close>

theorem add_tracked_process_duplicate_counterexample:
  "G_TRACKED_PROCESSES
     (add_tracked_process ''controller_mapper'' mapper_pi_2
       (add_tracked_process ''controller_mapper'' mapper_pi_1 boot_world)) =
   [\<lparr> name = ''controller_mapper'', pi = mapper_pi_2 \<rparr>,
    \<lparr> name = ''controller_mapper'', pi = mapper_pi_1 \<rparr>]"
  by (simp add: add_tracked_process_def boot_world_def)

text \<open>
  C10. \<^verbatim>\<open>add_tracked_process\<close> links a new node in front without looking for the name
  (last line: adding a name gives the old list behind the new node, the new node is what
  a find returns, and removing the name gives back the old state). So two nodes of one
  name can be tracked at once, the one added later nearer to the head: \<open>newest\<close> and
  \<open>older\<close> below, with \<open>later\<close> the nodes of other names added after \<open>newest\<close>. Then
  \<^verbatim>\<open>find_tracked_process\<close> returns \<open>newest\<close>, and \<^verbatim>\<open>remove_tracked_process\<close> unlinks
  \<open>newest\<close> only: \<open>older\<close> stays tracked and is found by the next find, and no system
  call is made, so the handles of \<open>older\<close> are as open as before.
\<close>

theorem duplicate_name_find_remove:
  assumes "G_TRACKED_PROCESSES st = later @ newest # between @ older # rest"
    and "name newest = nm" and "name older = nm" and "nm \<notin> name ` set later"
  shows "find_tracked_process nm st = Some newest
       \<and> G_TRACKED_PROCESSES (remove_tracked_process nm st) = later @ between @ older # rest
       \<and> find_tracked_process nm (remove_tracked_process nm st) \<noteq> None
       \<and> (nm \<notin> name ` set between \<longrightarrow>
            find_tracked_process nm (remove_tracked_process nm st) = Some older)
       \<and> os_calls (remove_tracked_process nm st) = os_calls st
       \<and> os_handles (remove_tracked_process nm st) = os_handles st
       \<and> (os_heap_ok st \<and> length nm < MAX_NAME_LEN \<longrightarrow>
            G_TRACKED_PROCESSES (add_tracked_process nm p st) =
              \<lparr> name = nm, pi = p \<rparr> # G_TRACKED_PROCESSES st
            \<and> find_tracked_process nm (add_tracked_process nm p st) = Some \<lparr> name = nm, pi = p \<rparr>
            \<and> remove_tracked_process nm (add_tracked_process nm p st) = st)"
proof -
  have found: "find_tracked_process nm st = Some newest"
    using assms(1,2) find_node_absent [OF assms(4)] by (simp add: find_tracked_process_def)
  have removed: "G_TRACKED_PROCESSES (remove_tracked_process nm st) =
      later @ between @ older # rest"
    using assms(1,2) unlink_first_absent [OF assms(4)] by (simp add: remove_tracked_process_def)
  have "older \<in> set (later @ between @ older # rest)" by simp
  from find_node_present [OF this]
  have still: "find_tracked_process nm (remove_tracked_process nm st) \<noteq> None"
    using assms(3) removed by (simp add: find_tracked_process_def)
  have next_one: "find_tracked_process nm (remove_tracked_process nm st) = Some older"
    if "nm \<notin> name ` set between"
  proof -
    have "nm \<notin> name ` set (later @ between)" using assms(4) that by auto
    from find_node_absent [OF this, of "older # rest"]
    show ?thesis using removed assms(3) by (simp add: find_tracked_process_def)
  qed
  have quiet: "os_calls (remove_tracked_process nm st) = os_calls st
      \<and> os_handles (remove_tracked_process nm st) = os_handles st"
    by (simp add: remove_tracked_process_def)
  have adding: "G_TRACKED_PROCESSES (add_tracked_process nm p st) =
              \<lparr> name = nm, pi = p \<rparr> # G_TRACKED_PROCESSES st
            \<and> find_tracked_process nm (add_tracked_process nm p st) = Some \<lparr> name = nm, pi = p \<rparr>
            \<and> remove_tracked_process nm (add_tracked_process nm p st) = st"
    if "os_heap_ok st" and "length nm < MAX_NAME_LEN"
    using that
    by (simp add: remove_tracked_process_def add_tracked_process_def find_tracked_process_def)
  show ?thesis
    using found removed still next_one quiet adding by blast
qed

definition other_pi :: PROCESS_INFORMATION where
  "other_pi = \<lparr> hProcess = 12, hThread = 13, dwProcessId = 208, dwThreadId = 209 \<rparr>"

definition twice_world :: world where
  "twice_world =
     add_tracked_process ''helper.exe'' other_pi
       (add_tracked_process ''controller_mapper'' mapper_pi_2
         (add_tracked_process ''controller_mapper'' mapper_pi_1 boot_world))"

theorem duplicate_name_find_remove_witness:
  "find_tracked_process ''controller_mapper'' twice_world =
     Some \<lparr> name = ''controller_mapper'', pi = mapper_pi_2 \<rparr>
   \<and> G_TRACKED_PROCESSES (remove_tracked_process ''controller_mapper'' twice_world) =
       [\<lparr> name = ''helper.exe'', pi = other_pi \<rparr>,
        \<lparr> name = ''controller_mapper'', pi = mapper_pi_1 \<rparr>]
   \<and> find_tracked_process ''controller_mapper''
         (remove_tracked_process ''controller_mapper'' twice_world) =
       Some \<lparr> name = ''controller_mapper'', pi = mapper_pi_1 \<rparr>"
proof -
  let ?newest = "\<lparr> name = ''controller_mapper'', pi = mapper_pi_2 \<rparr>"
  let ?older = "\<lparr> name = ''controller_mapper'', pi = mapper_pi_1 \<rparr>"
  let ?later = "[\<lparr> name = ''helper.exe'', pi = other_pi \<rparr>]"
  have h1: "G_TRACKED_PROCESSES twice_world = ?later @ ?newest # [] @ ?older # []"
    by (simp add: twice_world_def add_tracked_process_def boot_world_def)
  have h2: "name ?newest = ''controller_mapper''" by simp
  have h3: "name ?older = ''controller_mapper''" by simp
  have h4: "''controller_mapper'' \<notin> name ` set ?later" by simp
  show ?thesis
    using duplicate_name_find_remove [OF h1 h2 h3 h4] by simp
qed

section \<open>System calls\<close>

text \<open>
  \<^verbatim>\<open>OpenProcess\<close> succeeds when a process object of that id exists and returns a fresh
  handle, never \<open>NULL\<close>. \<^verbatim>\<open>TerminateProcess\<close> on a handle ends the process it names if
  it still runs (the object stays, with exit code 0); the call is recorded under the
  process id of its target. \<^verbatim>\<open>CloseHandle\<close> drops the handle from the handle table.
  A snapshot (\<^verbatim>\<open>CreateToolhelp32Snapshot\<close>, \<^verbatim>\<open>Process32First/Next\<close>) lists the
  processes that run, in table order; whether it can be made is \<open>os_snapshot_ok\<close>. The
  snapshot's own handle is not in the handle table and its \<^verbatim>\<open>CloseHandle\<close> is not
  recorded.
\<close>

definition open_process :: "DWORD \<Rightarrow> world \<Rightarrow> HANDLE \<times> world" where
  "open_process pid st =
     (if pid \<in> set (map th32ProcessID (os_processes st))
      then (Suc (os_last_handle st),
            st\<lparr> os_handles := (os_handles st)(Suc (os_last_handle st) \<mapsto> pid),
                os_last_handle := Suc (os_last_handle st) \<rparr>)
      else (0, st))"

definition set_exited :: "DWORD \<Rightarrow> nat \<Rightarrow> os_process \<Rightarrow> os_process" where
  "set_exited pid code e =
     (if th32ProcessID e = pid \<and> status e = Running then e\<lparr> status := Exited code \<rparr> else e)"

definition terminate_process :: "HANDLE \<Rightarrow> nat \<Rightarrow> world \<Rightarrow> world" where
  "terminate_process h code st =
     (case os_handles st h of
        None \<Rightarrow> st
      | Some pid \<Rightarrow>
          os_call (TerminateProcess pid)
            (st\<lparr> os_processes := map (set_exited pid code) (os_processes st) \<rparr>))"

definition close_handle :: "HANDLE \<Rightarrow> world \<Rightarrow> world" where
  "close_handle h st = os_call (CloseHandle h) (st\<lparr> os_handles := (os_handles st)(h := None) \<rparr>)"

definition snapshot :: "world \<Rightarrow> os_process list" where
  "snapshot st = filter (\<lambda>e. status e = Running) (os_processes st)"

section \<open>Process Tree Controller\<close>

text \<open>
  The first pass of \<^verbatim>\<open>terminate_process_tree\<close> writes into \<^verbatim>\<open>DWORD child_pids[256]\<close>.
  The buffer is a list of length 256 and \<^verbatim>\<open>child_pids[child_count++] = ...\<close> is
  \<open>array_store\<close>, which fails (\<open>None\<close>) on an index outside the buffer, so that a
  write past the end would show in the model.
\<close>

definition array_store :: "DWORD list \<Rightarrow> nat \<Rightarrow> DWORD \<Rightarrow> DWORD list option" where
  "array_store buf i v = (if i < length buf then Some (buf[i := v]) else None)"

fun collect_children ::
  "DWORD \<Rightarrow> os_process list \<Rightarrow> DWORD list \<Rightarrow> nat \<Rightarrow> (DWORD list \<times> nat) option" where
  "collect_children pid [] child_pids child_count = Some (child_pids, child_count)"
| "collect_children pid (pe # rest) child_pids child_count =
     (if th32ParentProcessID pe = pid \<and> child_count < 256
      then (case array_store child_pids child_count (th32ProcessID pe) of
              None \<Rightarrow> None
            | Some buf \<Rightarrow> collect_children pid rest buf (child_count + 1))
      else collect_children pid rest child_pids child_count)"

text \<open>A loop over a list whose body may fail to return; it stops at the first body that does.\<close>

fun for_each :: "('a \<Rightarrow> 's \<Rightarrow> 's option) \<Rightarrow> 'a list \<Rightarrow> 's \<Rightarrow> 's option" where
  "for_each body [] st = Some st"
| "for_each body (x # xs) st =
     (case body x st of None \<Rightarrow> None | Some st' \<Rightarrow> for_each body xs st')"

text \<open>The last block of \<^verbatim>\<open>terminate_process_tree\<close>: open, terminate and close the parent.\<close>

definition terminate_parent :: "DWORD \<Rightarrow> world \<Rightarrow> world" where
  "terminate_parent pid st =
     (case open_process pid st of
        (h, st1) \<Rightarrow>
          if h \<noteq> 0 then close_handle h (terminate_process h 0 st1)
          else st1)"

text \<open>
  \<^verbatim>\<open>terminate_process_tree\<close> calls itself for every collected child. The recursion of
  the C function is bounded by nothing but the stack; \<open>depth\<close> is the number of nested
  calls the stack still has room for, and \<open>None\<close> says that the call does not return.
\<close>

fun terminate_process_tree :: "nat \<Rightarrow> DWORD \<Rightarrow> world \<Rightarrow> world option" where
  "terminate_process_tree 0 pid st = None"
| "terminate_process_tree (Suc depth) pid st =
     (if \<not> os_snapshot_ok st then Some st
      else case collect_children pid (snapshot st) (replicate 256 0) 0 of
             None \<Rightarrow> None
           | Some (child_pids, child_count) \<Rightarrow>
               (case for_each (terminate_process_tree depth) (take child_count child_pids) st of
                  None \<Rightarrow> None
                | Some st' \<Rightarrow> Some (terminate_parent pid st')))"

text \<open>The synthetic graph root (10) with children A (11) and B (12), and C (13) below A.\<close>

definition tree_world :: world where
  "tree_world = boot_world\<lparr> os_processes :=
     [\<lparr> th32ProcessID = 10, th32ParentProcessID = 100, szExeFile = ''root.exe'', status = Running \<rparr>,
      \<lparr> th32ProcessID = 11, th32ParentProcessID = 10, szExeFile = ''a.exe'', status = Running \<rparr>,
      \<lparr> th32ProcessID = 12, th32ParentProcessID = 10, szExeFile = ''b.exe'', status = Running \<rparr>,
      \<lparr> th32ProcessID = 13, th32ParentProcessID = 11, szExeFile = ''c.exe'', status = Running \<rparr>] \<rparr>"

section \<open>Reasoning about the process tree\<close>

text \<open>
  \<open>kills\<close> is the order in which processes were terminated. \<open>links\<close> is the parent link
  of every process object, \<open>children\<close> what one level collects: the first 256 running
  processes whose parent id is \<open>pid\<close>. \<open>acyclic_below h n\<close> says that the parent links
  have no cycle among the processes of height below \<open>n\<close>: \<open>h\<close> falls from such a parent
  to each of its children (a real table has a cycle elsewhere: the idle process is its
  own parent). \<open>in_subtree ls root k\<close>: \<open>k\<close> is \<open>root\<close> or a descendant of it.
\<close>

fun kill_of :: "os_call \<Rightarrow> DWORD list" where
  "kill_of (TerminateProcess p) = [p]"
| "kill_of c = []"

definition kills :: "world \<Rightarrow> DWORD list" where
  "kills st = concat (map kill_of (os_calls st))"

definition pids :: "world \<Rightarrow> DWORD set" where
  "pids st = th32ProcessID ` set (os_processes st)"

definition links :: "world \<Rightarrow> (DWORD \<times> DWORD) list" where
  "links st = map (\<lambda>e. (th32ProcessID e, th32ParentProcessID e)) (os_processes st)"

definition children :: "DWORD \<Rightarrow> world \<Rightarrow> DWORD list" where
  "children pid st =
     take 256 (map th32ProcessID (filter (\<lambda>e. th32ParentProcessID e = pid) (snapshot st)))"

definition acyclic_below :: "(DWORD \<Rightarrow> nat) \<Rightarrow> nat \<Rightarrow> (DWORD \<times> DWORD) list \<Rightarrow> bool" where
  "acyclic_below h n ls = (\<forall>(k, p) \<in> set ls. h p < n \<longrightarrow> h k < h p)"

inductive in_subtree :: "(DWORD \<times> DWORD) list \<Rightarrow> DWORD \<Rightarrow> DWORD \<Rightarrow> bool"
  for ls :: "(DWORD \<times> DWORD) list" and root :: DWORD where
  self: "in_subtree ls root root"
| child: "(k, p) \<in> set ls \<Longrightarrow> in_subtree ls root p \<Longrightarrow> in_subtree ls root k"

definition mark_exited :: "DWORD set \<Rightarrow> os_process \<Rightarrow> os_process" where
  "mark_exited K e =
     (if th32ProcessID e \<in> K \<and> status e = Running then e\<lparr> status := Exited 0 \<rparr> else e)"

definition beyond_processes :: "world \<Rightarrow> world" where
  "beyond_processes st =
     st\<lparr> os_processes := [], os_handles := Map.empty, os_last_handle := 0, os_calls := [] \<rparr>"

definition os_only :: "world \<Rightarrow> world \<Rightarrow> bool" where
  "os_only st st' = (beyond_processes st' = beyond_processes st)"

definition extends :: "world \<Rightarrow> world \<Rightarrow> DWORD list \<Rightarrow> bool" where
  "extends st st' ks = (os_only st st' \<and> kills st' = kills st @ ks
     \<and> os_processes st' = map (mark_exited (set ks)) (os_processes st))"

lemma os_only_refl: "os_only st st"
  by (simp add: os_only_def)

lemma os_only_trans: "os_only a b \<Longrightarrow> os_only b c \<Longrightarrow> os_only a c"
  by (simp add: os_only_def)

lemma os_only_frame:
  assumes "os_only st st'"
  shows "G_TRACKED_PROCESSES st' = G_TRACKED_PROCESSES st"
    and "os_snapshot_ok st' = os_snapshot_ok st"
    and "G_CONFIG st' = G_CONFIG st"
    and "G_BORDERLESS_PROCESS st' = G_BORDERLESS_PROCESS st"
    and "os_files st' = os_files st"
    and "console st' = console st"
    and "os_taskbar_visible st' = os_taskbar_visible st"
proof -
  have e: "beyond_processes st' = beyond_processes st"
    using assms by (simp add: os_only_def)
  have "G_TRACKED_PROCESSES (beyond_processes st') = G_TRACKED_PROCESSES (beyond_processes st)"
    by (simp only: e)
  then show "G_TRACKED_PROCESSES st' = G_TRACKED_PROCESSES st"
    by (simp add: beyond_processes_def)
  have "os_snapshot_ok (beyond_processes st') = os_snapshot_ok (beyond_processes st)"
    by (simp only: e)
  then show "os_snapshot_ok st' = os_snapshot_ok st"
    by (simp add: beyond_processes_def)
  have "G_CONFIG (beyond_processes st') = G_CONFIG (beyond_processes st)"
    by (simp only: e)
  then show "G_CONFIG st' = G_CONFIG st"
    by (simp add: beyond_processes_def)
  have "G_BORDERLESS_PROCESS (beyond_processes st') = G_BORDERLESS_PROCESS (beyond_processes st)"
    by (simp only: e)
  then show "G_BORDERLESS_PROCESS st' = G_BORDERLESS_PROCESS st"
    by (simp add: beyond_processes_def)
  have "os_files (beyond_processes st') = os_files (beyond_processes st)"
    by (simp only: e)
  then show "os_files st' = os_files st"
    by (simp add: beyond_processes_def)
  have "console (beyond_processes st') = console (beyond_processes st)"
    by (simp only: e)
  then show "console st' = console st"
    by (simp add: beyond_processes_def)
  have "os_taskbar_visible (beyond_processes st') = os_taskbar_visible (beyond_processes st)"
    by (simp only: e)
  then show "os_taskbar_visible st' = os_taskbar_visible st"
    by (simp add: beyond_processes_def)
qed

lemma mark_exited_ids [simp]:
  "th32ProcessID (mark_exited K e) = th32ProcessID e"
  "th32ParentProcessID (mark_exited K e) = th32ParentProcessID e"
  by (simp_all add: mark_exited_def)

lemma mark_exited_join: "mark_exited B (mark_exited A e) = mark_exited (A \<union> B) e"
  by (simp add: mark_exited_def)

lemma mark_exited_empty: "map (mark_exited {}) xs = xs"
  by (induction xs) (auto simp: mark_exited_def)

lemma mark_exited_twice:
  "map (mark_exited B) (map (mark_exited A) xs) = map (mark_exited (A \<union> B)) xs"
  by (simp add: mark_exited_join)

lemma links_mark: "map (\<lambda>e. (th32ProcessID e, th32ParentProcessID e)) (map (mark_exited K) xs)
    = map (\<lambda>e. (th32ProcessID e, th32ParentProcessID e)) xs"
  by simp

lemma extends_refl: "extends st st []"
  by (simp add: extends_def os_only_refl mark_exited_empty)

lemma extends_trans:
  "extends a b ks \<Longrightarrow> extends b c ks' \<Longrightarrow> extends a c (ks @ ks')"
  by (auto simp: extends_def mark_exited_join intro: os_only_trans)

lemma extends_links: "extends st st' ks \<Longrightarrow> links st' = links st"
  by (simp add: extends_def links_def links_mark)

lemma extends_pids: "extends st st' ks \<Longrightarrow> pids st' = pids st"
proof -
  assume "extends st st' ks"
  then have "links st' = links st" by (rule extends_links)
  then have "map fst (links st') = map fst (links st)" by simp
  then have "map th32ProcessID (os_processes st') = map th32ProcessID (os_processes st)"
    by (simp add: links_def comp_def)
  then have "set (map th32ProcessID (os_processes st')) = set (map th32ProcessID (os_processes st))"
    by simp
  then show ?thesis by (simp add: pids_def)
qed

lemma extends_snapshot_ok: "extends st st' ks \<Longrightarrow> os_snapshot_ok st' = os_snapshot_ok st"
  by (simp add: extends_def os_only_frame)

lemma set_exited_mark: "set_exited pid 0 = mark_exited {pid}"
  by (rule ext) (simp add: set_exited_def mark_exited_def)

lemma terminate_parent_extends:
  "extends st (terminate_parent pid st) (if pid \<in> pids st then [pid] else [])"
  by (auto simp: terminate_parent_def open_process_def terminate_process_def close_handle_def
      os_call_def extends_def os_only_def beyond_processes_def kills_def pids_def
      set_exited_mark mark_exited_empty)


lemma collect_children_bounded:
  "length buf = 256 \<Longrightarrow> n \<le> 256 \<Longrightarrow>
   \<exists>buf' n'. collect_children pid es buf n = Some (buf', n') \<and> length buf' = 256 \<and> n' \<le> 256
     \<and> take n' buf' =
       take 256 (take n buf @ map th32ProcessID (filter (\<lambda>e. th32ParentProcessID e = pid) es))"
proof (induction es arbitrary: buf n)
  case Nil
  then show ?case by simp
next
  case (Cons e es)
  show ?case
  proof (cases "th32ParentProcessID e = pid")
    case False
    then show ?thesis using Cons.IH [OF Cons.prems] by simp
  next
    case True
    show ?thesis
    proof (cases "n < 256")
      case less: True
      let ?buf = "buf[n := th32ProcessID e]"
      have len: "length ?buf = 256" using Cons.prems by simp
      have n1: "n + 1 \<le> 256" using less by simp
      have tk: "take (n + 1) ?buf = take n buf @ [th32ProcessID e]"
        using less Cons.prems(1) by (simp add: take_Suc_conv_app_nth)
      from Cons.IH [OF len n1, unfolded tk]
      show ?thesis using True less Cons.prems(1) by (simp add: array_store_def)
    next
      case full: False
      then have n: "n = 256" using Cons.prems(2) by simp
      from Cons.IH [OF Cons.prems]
      show ?thesis using True n Cons.prems(1) by simp
    qed
  qed
qed

lemma collect_children_snapshot:
  "\<exists>buf n. collect_children pid (snapshot st) (replicate 256 0) 0 = Some (buf, n)
     \<and> take n buf = children pid st"
proof -
  have "length (replicate 256 (0::nat)) = 256" and "(0::nat) \<le> 256" by simp_all
  from collect_children_bounded [OF this, of pid "snapshot st"]
  show ?thesis by (auto simp: children_def)
qed

lemma children_linked:
  "c \<in> set (children pid st) \<Longrightarrow> (c, pid) \<in> set (links st) \<and> c \<in> pids st"
  by (auto simp: children_def links_def pids_def snapshot_def dest!: in_set_takeD)

lemma acyclic_below_less: "acyclic_below h (Suc n) ls \<Longrightarrow> acyclic_below h n ls"
  by (auto simp: acyclic_below_def)

lemma in_subtree_trans:
  "in_subtree ls c k \<Longrightarrow> in_subtree ls r c \<Longrightarrow> in_subtree ls r k"
  by (induction rule: in_subtree.induct) (auto intro: in_subtree.intros)

lemma in_subtree_height:
  "in_subtree ls c k \<Longrightarrow> acyclic_below h n ls \<Longrightarrow> h c < n \<Longrightarrow> h k \<le> h c"
proof (induction rule: in_subtree.induct)
  case self
  then show ?case by simp
next
  case (child k p)
  then have "h p \<le> h c" by simp
  moreover from this child.prems have "h p < n" by simp
  then have "h k < h p" using child.hyps(1) child.prems(1) by (auto simp: acyclic_below_def)
  ultimately show ?case by simp
qed

text \<open>
  \<open>subtree_part st c part\<close>: the terminations \<open>part\<close> are what a call for \<open>c\<close> may make:
  members of the subtree of \<open>c\<close> only, and \<open>c\<close> itself last when the snapshot can be
  made and \<open>c\<close> exists. \<open>tears_down\<close> is what one call of \<open>terminate_process_tree\<close> is
  shown to do: it returns, only the process table, the handles and the call record
  change, and its terminations are such a part.
\<close>

definition subtree_part :: "world \<Rightarrow> DWORD \<Rightarrow> DWORD list \<Rightarrow> bool" where
  "subtree_part st c part =
     ((\<forall>k \<in> set part. in_subtree (links st) c k)
      \<and> (os_snapshot_ok st \<and> c \<in> pids st \<longrightarrow> part \<noteq> [] \<and> last part = c))"

definition tears_down :: "nat \<Rightarrow> DWORD \<Rightarrow> world \<Rightarrow> bool" where
  "tears_down depth pid st =
     (\<exists>st' ks. terminate_process_tree depth pid st = Some st' \<and> extends st st' ks
        \<and> subtree_part st pid ks)"

lemma subtree_part_later:
  assumes "extends st st' ks"
  shows "subtree_part st' = subtree_part st"
proof (rule ext, rule ext)
  fix c part
  show "subtree_part st' c part = subtree_part st c part"
    unfolding subtree_part_def
    by (simp only: extends_links [OF assms] extends_pids [OF assms]
        extends_snapshot_ok [OF assms])
qed

lemma parts_members:
  "list_all2 (subtree_part st) cs parts \<Longrightarrow> k \<in> set (concat parts) \<Longrightarrow>
   \<exists>c \<in> set cs. in_subtree (links st) c k"
  by (induction rule: list_all2_induct) (auto simp: subtree_part_def)

lemma parts_cover:
  "list_all2 (subtree_part st) cs parts \<Longrightarrow> os_snapshot_ok st \<Longrightarrow> set cs \<subseteq> pids st \<Longrightarrow>
   list_all2 (\<lambda>c part. part \<noteq> [] \<and> last part = c
                \<and> (\<forall>k \<in> set part. in_subtree (links st) c k)) cs parts"
  by (induction rule: list_all2_induct) (auto simp: subtree_part_def)

lemma for_each_children:
  assumes step: "\<And>c st. acyclic_below h d (links st) \<Longrightarrow> h c < d \<Longrightarrow> tears_down d c st"
  shows "acyclic_below h d (links st) \<Longrightarrow> \<forall>c \<in> set cs. h c < d \<Longrightarrow>
    \<exists>st' parts. for_each (terminate_process_tree d) cs st = Some st'
      \<and> extends st st' (concat parts) \<and> list_all2 (subtree_part st) cs parts"
proof (induction cs arbitrary: st)
  case Nil
  have "extends st st (concat [])" using extends_refl by simp
  then show ?case by (intro exI [of _ st] exI [of _ "[]"]) simp
next
  case (Cons c cs)
  from step [OF Cons.prems(1)] Cons.prems(2) have "tears_down d c st" by simp
  then obtain st1 ks1 where
    r1: "terminate_process_tree d c st = Some st1" and e1: "extends st st1 ks1"
    and s1: "subtree_part st c ks1"
    unfolding tears_down_def by blast
  have lk: "links st1 = links st" using e1 by (rule extends_links)
  have same: "subtree_part st1 = subtree_part st" using e1 by (rule subtree_part_later)
  have "acyclic_below h d (links st1)" using Cons.prems(1) lk by simp
  moreover have "\<forall>c \<in> set cs. h c < d" using Cons.prems(2) by simp
  ultimately obtain st2 parts where
    r2: "for_each (terminate_process_tree d) cs st1 = Some st2"
    and e2: "extends st1 st2 (concat parts)"
    and s2: "list_all2 (subtree_part st1) cs parts"
    using Cons.IH by blast
  have "for_each (terminate_process_tree d) (c # cs) st = Some st2" using r1 r2 by simp
  moreover have "extends st st2 (concat (ks1 # parts))"
    using extends_trans [OF e1 e2] by simp
  moreover have "list_all2 (subtree_part st) (c # cs) (ks1 # parts)"
    using s1 s2 same by simp
  ultimately show ?case by blast
qed

lemma terminate_process_tree_step:
  assumes ok: "os_snapshot_ok st"
    and ac: "acyclic_below h (Suc d) (links st)" and hp: "h pid < Suc d"
    and step: "\<And>c st. acyclic_below h d (links st) \<Longrightarrow> h c < d \<Longrightarrow> tears_down d c st"
  shows "\<exists>mid parts. for_each (terminate_process_tree d) (children pid st) st = Some mid
      \<and> terminate_process_tree (Suc d) pid st = Some (terminate_parent pid mid)
      \<and> extends st mid (concat parts)
      \<and> extends st (terminate_parent pid mid)
          (concat parts @ (if pid \<in> pids st then [pid] else []))
      \<and> list_all2 (subtree_part st) (children pid st) parts"
proof -
  obtain buf n where cc: "collect_children pid (snapshot st) (replicate 256 0) 0 = Some (buf, n)"
    and tk: "take n buf = children pid st"
    using collect_children_snapshot by blast
  have low: "\<forall>c \<in> set (children pid st). h c < d"
  proof
    fix c assume "c \<in> set (children pid st)"
    then have "(c, pid) \<in> set (links st)" by (simp add: children_linked)
    then have "h c < h pid" using ac hp by (auto simp: acyclic_below_def)
    then show "h c < d" using hp by simp
  qed
  from for_each_children [of h d, OF step acyclic_below_less [OF ac] low]
  obtain mid parts where
    r: "for_each (terminate_process_tree d) (children pid st) st = Some mid"
    and e: "extends st mid (concat parts)"
    and s: "list_all2 (subtree_part st) (children pid st) parts"
    by blast
  have run: "terminate_process_tree (Suc d) pid st = Some (terminate_parent pid mid)"
    using ok cc tk r by simp
  have "extends mid (terminate_parent pid mid) (if pid \<in> pids mid then [pid] else [])"
    by (rule terminate_parent_extends)
  then have e2: "extends st (terminate_parent pid mid)
      (concat parts @ (if pid \<in> pids st then [pid] else []))"
    using extends_trans [OF e] extends_pids [OF e] by simp
  show ?thesis using r run e e2 s by blast
qed

lemma terminate_process_tree_tears_down:
  "acyclic_below h depth (links st) \<Longrightarrow> h pid < depth \<Longrightarrow> tears_down depth pid st"
proof (induction depth arbitrary: pid st)
  case 0
  then show ?case by simp
next
  case (Suc d)
  show ?case
  proof (cases "os_snapshot_ok st")
    case False
    have "terminate_process_tree (Suc d) pid st = Some st" using False by simp
    moreover have "extends st st []" by (rule extends_refl)
    ultimately show ?thesis
      unfolding tears_down_def using False
      by (intro exI [of _ st] exI [of _ "[]"]) (simp add: subtree_part_def)
  next
    case True
    from terminate_process_tree_step [OF True Suc.prems Suc.IH]
    obtain mid parts where
      run: "terminate_process_tree (Suc d) pid st = Some (terminate_parent pid mid)"
      and e2: "extends st (terminate_parent pid mid)
                 (concat parts @ (if pid \<in> pids st then [pid] else []))"
      and s: "list_all2 (subtree_part st) (children pid st) parts"
      by blast
    let ?ks = "concat parts @ (if pid \<in> pids st then [pid] else [])"
    have "\<forall>k \<in> set ?ks. in_subtree (links st) pid k"
    proof
      fix k assume "k \<in> set ?ks"
      then consider "k \<in> set (concat parts)" | "k = pid" by (auto split: if_splits)
      then show "in_subtree (links st) pid k"
      proof cases
        case 1
        then obtain c where c: "c \<in> set (children pid st)" and sub: "in_subtree (links st) c k"
          using parts_members [OF s] by blast
        have "in_subtree (links st) pid c"
          using children_linked [OF c] by (auto intro: in_subtree.intros)
        then show ?thesis using sub by (rule in_subtree_trans [rotated])
      next
        case 2
        then show ?thesis by (simp add: in_subtree.self)
      qed
    qed
    then have "subtree_part st pid ?ks" by (simp add: subtree_part_def)
    then show ?thesis unfolding tears_down_def using run e2 by blast
  qed
qed

lemma terminate_process_tree_Suc:
  "terminate_process_tree (Suc d) pid st =
     (if \<not> os_snapshot_ok st then Some st
      else case for_each (terminate_process_tree d) (children pid st) st of
             None \<Rightarrow> None
           | Some st' \<Rightarrow> Some (terminate_parent pid st'))"
  using collect_children_snapshot [of pid st] by auto

definition tree_height :: "DWORD \<Rightarrow> nat" where
  "tree_height p = (if p = 100 then 3 else if p = 10 then 2 else if p = 11 then 1 else 0)"

lemma children_phase:
  assumes "os_snapshot_ok st" and "acyclic_below h depth (links st)" and "h root < depth"
  shows "\<exists>mid parts. for_each (terminate_process_tree (depth - 1)) (children root st) st = Some mid
      \<and> terminate_process_tree depth root st = Some (terminate_parent root mid)
      \<and> extends st mid (concat parts)
      \<and> extends st (terminate_parent root mid)
          (concat parts @ (if root \<in> pids st then [root] else []))
      \<and> list_all2 (\<lambda>c part. part \<noteq> [] \<and> last part = c
                      \<and> (\<forall>k \<in> set part. in_subtree (links st) c k)) (children root st) parts
      \<and> root \<notin> set (concat parts)
      \<and> (\<forall>k \<in> set (concat parts). \<exists>c \<in> set (children root st). in_subtree (links st) c k)"
proof -
  obtain d where d: "depth = Suc d" using assms(3) by (cases depth) auto
  have ac: "acyclic_below h (Suc d) (links st)" and hr: "h root < Suc d"
    using assms d by simp_all
  have step: "\<And>c st. acyclic_below h d (links st) \<Longrightarrow> h c < d \<Longrightarrow> tears_down d c st"
    by (rule terminate_process_tree_tears_down)
  from terminate_process_tree_step [OF assms(1) ac hr step]
  obtain mid parts where
    r: "for_each (terminate_process_tree d) (children root st) st = Some mid"
    and run: "terminate_process_tree (Suc d) root st = Some (terminate_parent root mid)"
    and e: "extends st mid (concat parts)"
    and e2: "extends st (terminate_parent root mid)
               (concat parts @ (if root \<in> pids st then [root] else []))"
    and s: "list_all2 (subtree_part st) (children root st) parts"
    by blast
  have mem: "\<forall>k \<in> set (concat parts). \<exists>c \<in> set (children root st). in_subtree (links st) c k"
    using parts_members [OF s] by blast
  have "set (children root st) \<subseteq> pids st" using children_linked by blast
  then have each: "list_all2 (\<lambda>c part. part \<noteq> [] \<and> last part = c
      \<and> (\<forall>k \<in> set part. in_subtree (links st) c k)) (children root st) parts"
    using parts_cover [OF s assms(1)] by simp
  have "root \<notin> set (concat parts)"
  proof
    assume "root \<in> set (concat parts)"
    then obtain c where c: "c \<in> set (children root st)" and sub: "in_subtree (links st) c root"
      using mem by blast
    have "(c, root) \<in> set (links st)" using c by (simp add: children_linked)
    then have lt: "h c < h root" using ac hr by (auto simp: acyclic_below_def)
    then have "h c < Suc d" using hr by simp
    from in_subtree_height [OF sub ac this] lt show False by simp
  qed
  then show ?thesis
    unfolding d using r run e e2 each mem
    by (intro exI [of _ mid] exI [of _ parts]) simp
qed

text \<open>
  C2. Take a snapshot that can be made and parent links without a cycle below the
  root, and a stack deep enough for the tree. Then \<open>terminate_process_tree\<close> returns,
  and it is the loop over the collected children, run to its end, followed by the
  termination of the root. The terminations made before the root's are one part per
  collected child, in snapshot order (depth first): each part holds members of that
  child's subtree only and ends with the child itself, and the root is in none of
  them. The root is terminated after all of them, last. The same holds for each
  recursive call, since the statement is about every call. On the synthetic graph
  root, A, B below root, C below A, the order is C, A, B, root (the witness).
\<close>

theorem terminate_process_tree_children_first:
  assumes "os_snapshot_ok st" and "acyclic_below h depth (links st)" and "h root < depth"
  shows "\<exists>mid parts.
        for_each (terminate_process_tree (depth - 1)) (children root st) st = Some mid
      \<and> terminate_process_tree depth root st = Some (terminate_parent root mid)
      \<and> kills mid = kills st @ concat parts
      \<and> kills (terminate_parent root mid) =
          kills st @ concat parts @ (if root \<in> pids st then [root] else [])
      \<and> list_all2 (\<lambda>c part. part \<noteq> [] \<and> last part = c
                      \<and> (\<forall>k \<in> set part. in_subtree (links st) c k)) (children root st) parts
      \<and> root \<notin> set (concat parts)"
proof -
  from children_phase [OF assms]
  obtain mid parts where
    r: "for_each (terminate_process_tree (depth - 1)) (children root st) st = Some mid"
    and run: "terminate_process_tree depth root st = Some (terminate_parent root mid)"
    and e: "extends st mid (concat parts)"
    and e2: "extends st (terminate_parent root mid)
               (concat parts @ (if root \<in> pids st then [root] else []))"
    and each: "list_all2 (\<lambda>c part. part \<noteq> [] \<and> last part = c
                      \<and> (\<forall>k \<in> set part. in_subtree (links st) c k)) (children root st) parts"
    and no: "root \<notin> set (concat parts)"
    by blast
  have k1: "kills mid = kills st @ concat parts"
    using e by (simp add: extends_def)
  have k2: "kills (terminate_parent root mid) =
          kills st @ concat parts @ (if root \<in> pids st then [root] else [])"
    using e2 by (simp add: extends_def)
  show ?thesis
    using r run k1 k2 each no by (intro exI [of _ mid] exI [of _ parts]) simp
qed

theorem terminate_process_tree_children_first_witness:
  "os_snapshot_ok tree_world \<and> acyclic_below tree_height 3 (links tree_world)
   \<and> tree_height 10 < 3
   \<and> map_option kills (terminate_process_tree 3 10 tree_world) = Some [13, 11, 12, 10]"
proof -
  have h1: "os_snapshot_ok tree_world" by (simp add: tree_world_def boot_world_def)
  have h2: "acyclic_below tree_height 3 (links tree_world)"
    by (simp add: acyclic_below_def links_def tree_world_def tree_height_def)
  have h3: "tree_height 10 < 3" by (simp add: tree_height_def)
  have run: "map_option kills (terminate_process_tree 3 10 tree_world) = Some [13, 11, 12, 10]"
    by (simp add: numeral_3_eq_3 terminate_process_tree_Suc children_def snapshot_def
        tree_world_def boot_world_def terminate_parent_def open_process_def
        terminate_process_def close_handle_def os_call_def set_exited_def kills_def
        del: terminate_process_tree.simps(2))
  show ?thesis
    using terminate_process_tree_children_first [OF h1 h2 h3] h1 h2 h3 run by simp
qed


section \<open>The fan-out cap\<close>

text \<open>A root (10) with 257 running children, 1000 to 1256, in snapshot order.\<close>

definition crowd_world :: world where
  "crowd_world = boot_world\<lparr> os_processes :=
     \<lparr> th32ProcessID = 10, th32ParentProcessID = 100, szExeFile = ''root.exe'', status = Running \<rparr>
     # map (\<lambda>i. \<lparr> th32ProcessID = 1000 + i, th32ParentProcessID = 10,
                  szExeFile = ''child.exe'', status = Running \<rparr>) [0..<257] \<rparr>"

definition crowd_height :: "DWORD \<Rightarrow> nat" where
  "crowd_height p = (if p = 100 then 2 else if p = 10 then 1 else 0)"

lemma in_subtree_cases:
  "in_subtree ls c k \<Longrightarrow> k = c \<or> (\<exists>p. (k, p) \<in> set ls \<and> in_subtree ls c p)"
  by (erule in_subtree.cases) auto

text \<open>
  C8. On any snapshot the first pass returns (no store outside the buffer), with at
  most 256 collected ids, the first 256 processes whose parent is \<open>pid\<close> in snapshot
  order. And a running child of the root that comes after the 256th in the snapshot
  is not terminated by the call: the call returns normally, the child is not among the
  terminated processes and still runs afterwards (process ids are unique, the parent
  links have no cycle below the root).
\<close>

theorem child_buffer_holds_256:
  assumes "os_snapshot_ok st" and "acyclic_below h depth (links st)" and "h root < depth"
    and "distinct (map th32ProcessID (os_processes st))"
    and "e \<in> set (snapshot st)" and "th32ParentProcessID e = root"
    and "th32ProcessID e \<in> set (drop 256
           (map th32ProcessID (filter (\<lambda>e. th32ParentProcessID e = root) (snapshot st))))"
  shows "(\<exists>buf n. collect_children pid es (replicate 256 0) 0 = Some (buf, n)
            \<and> length buf = 256 \<and> n \<le> 256
            \<and> take n buf =
                take 256 (map th32ProcessID (filter (\<lambda>e. th32ParentProcessID e = pid) es)))
       \<and> (\<exists>st' ks. terminate_process_tree depth root st = Some st'
            \<and> kills st' = kills st @ ks \<and> th32ProcessID e \<notin> set ks
            \<and> e \<in> set (snapshot st'))"
proof -
  let ?x = "th32ProcessID e"
  let ?all = "map th32ProcessID (filter (\<lambda>e. th32ParentProcessID e = root) (snapshot st))"
  have "length (replicate 256 (0::nat)) = 256" and "(0::nat) \<le> 256" by simp_all
  from collect_children_bounded [OF this, of pid es]
  have first: "\<exists>buf n. collect_children pid es (replicate 256 0) 0 = Some (buf, n)
            \<and> length buf = 256 \<and> n \<le> 256
            \<and> take n buf =
                take 256 (map th32ProcessID (filter (\<lambda>e. th32ParentProcessID e = pid) es))"
    by simp
  from children_phase [OF assms(1-3)]
  obtain mid parts where
    run: "terminate_process_tree depth root st = Some (terminate_parent root mid)"
    and e2': "extends st (terminate_parent root mid)
                (concat parts @ (if root \<in> pids st then [root] else []))"
    and s': "\<forall>k \<in> set (concat parts).
               \<exists>c \<in> set (children root st). in_subtree (links st) c k"
    by blast
  define ks where "ks = concat parts"
  have e2: "extends st (terminate_parent root mid) (ks @ (if root \<in> pids st then [root] else []))"
    using e2' by (simp add: ks_def)
  have s: "\<forall>k \<in> set ks. \<exists>c \<in> set (children root st). in_subtree (links st) c k"
    using s' by (simp add: ks_def)
  have e_in: "e \<in> set (os_processes st)" and e_run: "status e = Running"
    using assms(5) by (simp_all add: snapshot_def)
  have link: "(?x, root) \<in> set (links st)"
    using e_in assms(6) by (force simp: links_def)
  have keys: "distinct (map fst (links st))"
    using assms(4) by (simp add: links_def comp_def)
  have below: "h ?x < h root"
    using link assms(2,3) by (auto simp: acyclic_below_def)
  have "distinct (map th32ProcessID (snapshot st))"
    using assms(4) by (simp add: snapshot_def distinct_map_filter)
  then have "distinct ?all" by (simp add: distinct_map_filter)
  then have "distinct (take 256 ?all @ drop 256 ?all)" by simp
  then have "set (take 256 ?all) \<inter> set (drop 256 ?all) = {}"
    by (simp only: distinct_append)
  then have late: "?x \<notin> set (children root st)"
    using assms(7) by (auto simp: children_def)
  have not_ks: "?x \<notin> set ks"
  proof
    assume "?x \<in> set ks"
    then obtain c where c: "c \<in> set (children root st)" and sub: "in_subtree (links st) c ?x"
      using s by blast
    have "?x \<noteq> c" using c late by auto
    then obtain p where p: "(?x, p) \<in> set (links st)" and up: "in_subtree (links st) c p"
      using in_subtree_cases [OF sub] by blast
    have "p = root" using eq_key_imp_eq_value [OF keys p link] .
    then have up': "in_subtree (links st) c root" using up by simp
    have "(c, root) \<in> set (links st)" using c by (simp add: children_linked)
    then have lt: "h c < h root" using assms(2,3) by (auto simp: acyclic_below_def)
    then have "h c < depth" using assms(3) by simp
    from in_subtree_height [OF up' assms(2) this] lt show False by simp
  qed
  have not_all: "?x \<notin> set (ks @ (if root \<in> pids st then [root] else []))"
    using not_ks below by auto
  have procs: "os_processes (terminate_parent root mid) =
      map (mark_exited (set (ks @ (if root \<in> pids st then [root] else [])))) (os_processes st)"
    using e2 by (simp add: extends_def)
  have "mark_exited (set (ks @ (if root \<in> pids st then [root] else []))) e = e"
    using not_all by (auto simp: mark_exited_def)
  then have "e \<in> set (os_processes (terminate_parent root mid))"
    unfolding procs using e_in by (metis imageI set_map)
  then have alive: "e \<in> set (snapshot (terminate_parent root mid))"
    using e_run by (simp add: snapshot_def)
  have "kills (terminate_parent root mid) = kills st @ ks @ (if root \<in> pids st then [root] else [])"
    using e2 by (simp add: extends_def)
  then show ?thesis using first run not_all alive by auto
qed


definition last_child :: os_process where
  "last_child = \<lparr> th32ProcessID = 1256, th32ParentProcessID = 10,
                   szExeFile = ''child.exe'', status = Running \<rparr>"

lemma crowd_snapshot: "snapshot crowd_world = os_processes crowd_world"
  by (simp add: snapshot_def crowd_world_def)

lemma crowd_children:
  "map th32ProcessID (filter (\<lambda>e. th32ParentProcessID e = 10) (os_processes crowd_world))
     = map (\<lambda>i. 1000 + i) [0..<257]"
  by (simp add: crowd_world_def filter_map comp_def)

theorem child_buffer_holds_256_witness:
  "os_snapshot_ok crowd_world \<and> acyclic_below crowd_height 2 (links crowd_world)
   \<and> crowd_height 10 < 2 \<and> distinct (map th32ProcessID (os_processes crowd_world))
   \<and> last_child \<in> set (snapshot crowd_world)
   \<and> (\<exists>st' ks. terminate_process_tree 2 10 crowd_world = Some st'
         \<and> kills st' = kills crowd_world @ ks \<and> 1256 \<notin> set ks
         \<and> last_child \<in> set (snapshot st'))"
proof -
  have h1: "os_snapshot_ok crowd_world" by (simp add: crowd_world_def boot_world_def)
  have h2: "acyclic_below crowd_height 2 (links crowd_world)"
    by (auto simp: acyclic_below_def links_def crowd_world_def crowd_height_def)
  have h3: "crowd_height 10 < 2" by (simp add: crowd_height_def)
  have h4: "distinct (map th32ProcessID (os_processes crowd_world))"
    by (auto simp: crowd_world_def comp_def distinct_map inj_on_def)
  have h5: "last_child \<in> set (snapshot crowd_world)"
    unfolding crowd_snapshot by (simp add: crowd_world_def last_child_def)
  have h6: "th32ParentProcessID last_child = 10" by (simp add: last_child_def)
  have "drop 256 (map (\<lambda>i. 1000 + i) [0..<257]) = [1256::nat]"
    by (simp add: drop_map)
  then have h7: "th32ProcessID last_child \<in> set (drop 256
           (map th32ProcessID (filter (\<lambda>e. th32ParentProcessID e = 10) (snapshot crowd_world))))"
    unfolding crowd_snapshot crowd_children by (simp add: last_child_def)
  have x: "th32ProcessID last_child = 1256" by (simp add: last_child_def)
  show ?thesis
    using child_buffer_holds_256 [OF h1 h2 h3 h4 h5 h6 h7] h1 h2 h3 h4 h5 x by simp
qed

section \<open>Draining the registry\<close>

text \<open>
  \<^verbatim>\<open>kill_all_tracked_processes\<close>: the first loop (body \<open>kill_tracked\<close>) terminates the
  tree of every node and closes its two handles, the second loop frees the nodes one by
  one until the list pointer is \<open>NULL\<close>.
\<close>

definition kill_tracked :: "nat \<Rightarrow> TrackedProcess \<Rightarrow> world \<Rightarrow> world option" where
  "kill_tracked depth current st =
     (case terminate_process_tree depth (dwProcessId (pi current)) st of
        None \<Rightarrow> None
      | Some st' \<Rightarrow>
          Some (close_handle (hThread (pi current)) (close_handle (hProcess (pi current)) st')))"

fun free_nodes :: "TrackedProcess list \<Rightarrow> TrackedProcess list" where
  "free_nodes [] = []"
| "free_nodes (to_remove # rest) = free_nodes rest"

definition kill_all_tracked_processes :: "nat \<Rightarrow> world \<Rightarrow> world option" where
  "kill_all_tracked_processes depth st0 =
     (let st = show_message ''Cleaning up background processes...'' st0 in
      case for_each (kill_tracked depth) (G_TRACKED_PROCESSES st) st of
        None \<Rightarrow> None
      | Some st' \<Rightarrow> Some (st'\<lparr> G_TRACKED_PROCESSES := free_nodes (G_TRACKED_PROCESSES st') \<rparr>))"

lemma free_nodes_empty: "free_nodes xs = []"
  by (induction xs) auto

lemma show_message_keeps:
  "G_TRACKED_PROCESSES (show_message m st) = G_TRACKED_PROCESSES st"
  "os_calls (show_message m st) = os_calls st"
  "os_processes (show_message m st) = os_processes st"
  "os_handles (show_message m st) = os_handles st"
  "links (show_message m st) = links st"
  by (simp_all add: show_message_def log_message_def links_def)

lemma kill_tracked_returns:
  assumes "acyclic_below h depth (links st)" and "h (dwProcessId (pi current)) < depth"
  shows "\<exists>st'. kill_tracked depth current st = Some st' \<and> links st' = links st
           \<and> G_TRACKED_PROCESSES st' = G_TRACKED_PROCESSES st"
proof -
  from terminate_process_tree_tears_down [OF assms]
  obtain st1 ks where r: "terminate_process_tree depth (dwProcessId (pi current)) st = Some st1"
    and e: "extends st st1 ks"
    unfolding tears_down_def by blast
  have "links st1 = links st" using e by (rule extends_links)
  moreover have "G_TRACKED_PROCESSES st1 = G_TRACKED_PROCESSES st"
    using e by (simp add: extends_def os_only_frame)
  ultimately show ?thesis
    using r by (simp add: kill_tracked_def close_handle_def os_call_def links_def)
qed

lemma kill_loop_returns:
  "acyclic_below h depth (links st) \<Longrightarrow> \<forall>tp \<in> set tps. h (dwProcessId (pi tp)) < depth \<Longrightarrow>
   \<exists>st'. for_each (kill_tracked depth) tps st = Some st'
     \<and> G_TRACKED_PROCESSES st' = G_TRACKED_PROCESSES st"
proof (induction tps arbitrary: st)
  case Nil
  then show ?case by simp
next
  case (Cons tp tps)
  from kill_tracked_returns [OF Cons.prems(1), of tp] Cons.prems(2)
  obtain st1 where r: "kill_tracked depth tp st = Some st1" and l: "links st1 = links st"
    and g: "G_TRACKED_PROCESSES st1 = G_TRACKED_PROCESSES st"
    by auto
  have "acyclic_below h depth (links st1)" using Cons.prems(1) l by simp
  moreover have "\<forall>tp \<in> set tps. h (dwProcessId (pi tp)) < depth" using Cons.prems(2) by simp
  ultimately obtain st2 where "for_each (kill_tracked depth) tps st1 = Some st2"
    and "G_TRACKED_PROCESSES st2 = G_TRACKED_PROCESSES st1"
    using Cons.IH by blast
  then show ?case using r g by simp
qed

text \<open>
  C5. With parent links free of cycles below the tracked processes and a stack deep
  enough, \<open>kill_all_tracked_processes\<close> returns and leaves the registry empty; a second
  call, with any stack, returns as well, leaves the registry empty and makes no system
  call at all (no terminate, no close): it only prints its message again.
\<close>

theorem kill_all_tracked_processes_idempotent:
  assumes "acyclic_below h depth (links st)"
    and "\<forall>tp \<in> set (G_TRACKED_PROCESSES st). h (dwProcessId (pi tp)) < depth"
  shows "\<exists>st1. kill_all_tracked_processes depth st = Some st1
           \<and> G_TRACKED_PROCESSES st1 = []
           \<and> (\<forall>d. \<exists>st2. kill_all_tracked_processes d st1 = Some st2
                 \<and> st2 = show_message ''Cleaning up background processes...'' st1
                 \<and> G_TRACKED_PROCESSES st2 = []
                 \<and> os_calls st2 = os_calls st1
                 \<and> os_processes st2 = os_processes st1
                 \<and> os_handles st2 = os_handles st1)"
proof -
  let ?m = "''Cleaning up background processes...''"
  have ac: "acyclic_below h depth (links (show_message ?m st))"
    using assms(1) by (simp add: show_message_keeps)
  have low: "\<forall>tp \<in> set (G_TRACKED_PROCESSES (show_message ?m st)). h (dwProcessId (pi tp)) < depth"
    using assms(2) by (simp add: show_message_keeps)
  from kill_loop_returns [OF ac low]
  obtain st' where
    r: "for_each (kill_tracked depth) (G_TRACKED_PROCESSES (show_message ?m st))
          (show_message ?m st) = Some st'"
    by blast
  let ?st1 = "st'\<lparr> G_TRACKED_PROCESSES := free_nodes (G_TRACKED_PROCESSES st') \<rparr>"
  have first: "kill_all_tracked_processes depth st = Some ?st1"
    using r by (simp add: kill_all_tracked_processes_def Let_def)
  have empty: "G_TRACKED_PROCESSES ?st1 = []" by (simp add: free_nodes_empty)
  have second: "kill_all_tracked_processes d ?st1 = Some (show_message ?m ?st1)" for d
  proof -
    have "G_TRACKED_PROCESSES (show_message ?m ?st1) = []"
      using empty by (simp only: show_message_keeps)
    then show ?thesis
      by (simp add: kill_all_tracked_processes_def Let_def)
  qed
  show ?thesis
    using first empty second by (simp add: show_message_keeps)
qed

definition tracked_world :: world where
  "tracked_world = tree_world\<lparr> G_TRACKED_PROCESSES :=
     [\<lparr> name = ''controller_mapper'',
        pi = \<lparr> hProcess = 8, hThread = 9, dwProcessId = 11, dwThreadId = 21 \<rparr> \<rparr>,
      \<lparr> name = ''helper.exe'',
        pi = \<lparr> hProcess = 10, hThread = 11, dwProcessId = 12, dwThreadId = 22 \<rparr> \<rparr>],
     os_handles := [8 \<mapsto> 11, 10 \<mapsto> 12], os_last_handle := 11 \<rparr>"

theorem kill_all_tracked_processes_idempotent_witness:
  "acyclic_below tree_height 3 (links tracked_world)
   \<and> (\<exists>st1. kill_all_tracked_processes 3 tracked_world = Some st1
         \<and> G_TRACKED_PROCESSES st1 = []
         \<and> (\<exists>st2. kill_all_tracked_processes 0 st1 = Some st2
               \<and> G_TRACKED_PROCESSES st2 = [] \<and> os_calls st2 = os_calls st1))"
proof -
  have h1: "acyclic_below tree_height 3 (links tracked_world)"
    by (simp add: acyclic_below_def links_def tracked_world_def tree_world_def tree_height_def)
  have h2: "\<forall>tp \<in> set (G_TRACKED_PROCESSES tracked_world). tree_height (dwProcessId (pi tp)) < 3"
    by (simp add: tracked_world_def tree_height_def)
  show ?thesis
    using kill_all_tracked_processes_idempotent [OF h1 h2] h1 by blast
qed

section \<open>More system calls\<close>

text \<open>
  \<^verbatim>\<open>GetFileAttributesA\<close> finds the files of \<open>os_files\<close>. \<^verbatim>\<open>CreateProcessA\<close> starts what
  \<open>os_spawn\<close> says the command line starts: a new child of the launcher with fresh
  ids and handles. \<^verbatim>\<open>WaitForSingleObject(h, INFINITE)\<close> returns at once on a handle
  that names no running process, returns when the process exits if \<open>os_exit_code_of\<close>
  gives it an exit code, and never returns otherwise (\<open>None\<close>).
\<close>

definition file_exists :: "string \<Rightarrow> world \<Rightarrow> bool" where
  "file_exists path st = (os_files st path \<noteq> None)"

definition create_process ::
  "string \<Rightarrow> string option \<Rightarrow> world \<Rightarrow> PROCESS_INFORMATION option \<times> world" where
  "create_process command working_dir st0 =
     (let st = os_call (CreateProcessA command working_dir) st0 in
      case os_spawn st command working_dir of
        None \<Rightarrow> (None, st)
      | Some exe \<Rightarrow>
          (let p = \<lparr> hProcess = os_last_handle st + 1, hThread = os_last_handle st + 2,
                     dwProcessId = os_next_pid st, dwThreadId = os_next_pid st + 1 \<rparr>
           in (Some p,
               st\<lparr> os_processes := os_processes st @
                      [\<lparr> th32ProcessID = os_next_pid st, th32ParentProcessID = os_current_pid st,
                         szExeFile = exe, status = Running \<rparr>],
                    os_handles := (os_handles st)(os_last_handle st + 1 \<mapsto> os_next_pid st),
                    os_last_handle := os_last_handle st + 2,
                    os_next_pid := os_next_pid st + 2 \<rparr>)))"

definition wait_for_single_object :: "HANDLE \<Rightarrow> world \<Rightarrow> world option" where
  "wait_for_single_object h st =
     (case os_handles st h of
        None \<Rightarrow> Some st
      | Some pid \<Rightarrow>
          if pid \<notin> th32ProcessID ` set (snapshot st) then Some st
          else (case os_exit_code_of st pid of
                  None \<Rightarrow> None
                | Some code \<Rightarrow>
                    Some (st\<lparr> os_processes := map (set_exited pid code) (os_processes st) \<rparr>)))"

definition get_process_id :: "HANDLE \<Rightarrow> world \<Rightarrow> DWORD" where
  "get_process_id h st = (case os_handles st h of None \<Rightarrow> 0 | Some pid \<Rightarrow> pid)"

definition sleep_ms :: "nat \<Rightarrow> world \<Rightarrow> world" where
  "sleep_ms ms st = os_call (Sleep ms) st"

definition show_window :: "HANDLE \<Rightarrow> bool \<Rightarrow> world \<Rightarrow> world" where
  "show_window h shown st =
     os_call (ShowWindow h shown)
       (if h \<noteq> 0 \<and> h = os_shell_traywnd st then st\<lparr> os_taskbar_visible := shown \<rparr> else st)"

definition run_process ::
  "string \<Rightarrow> string option \<Rightarrow> bool \<Rightarrow> world \<Rightarrow> (bool \<times> PROCESS_INFORMATION \<times> world) option" where
  "run_process command working_dir wait st =
     (if \<not> os_heap_ok st then Some (False, zero_pi, st)
      else case create_process command working_dir st of
             (None, st1) \<Rightarrow> Some (False, zero_pi, st1)
           | (Some p, st1) \<Rightarrow>
               if wait
               then (case wait_for_single_object (hProcess p) st1 of
                       None \<Rightarrow> None
                     | Some st2 \<Rightarrow>
                         Some (True, p, close_handle (hThread p) (close_handle (hProcess p) st2)))
               else Some (True, p, st1))"

text \<open>A call of \<^verbatim>\<open>run_process\<close> whose result and process information are not used.\<close>

definition run_and_forget ::
  "string \<Rightarrow> string option \<Rightarrow> bool \<Rightarrow> world \<Rightarrow> world option" where
  "run_and_forget command working_dir wait st =
     (case run_process command working_dir wait st of
        None \<Rightarrow> None
      | Some (success, p, st') \<Rightarrow> Some st')"

section \<open>More string utilities\<close>

text \<open>
  \<open>base_name\<close> is the idiom \<^verbatim>\<open>strrchr(s, '\\')\<close>, else \<^verbatim>\<open>strrchr(s, '/')\<close>, else the whole
  string; \<open>strstr h n\<close> says that \<^verbatim>\<open>strstr(h, n)\<close> is not \<open>NULL\<close>.
\<close>

abbreviation dq :: string where "dq \<equiv> [CHR 0x22]"
abbreviation sq :: string where "sq \<equiv> [CHR 0x27]"
abbreviation backslash :: char where "backslash \<equiv> CHR 0x5C"

definition after_last :: "char \<Rightarrow> string \<Rightarrow> string" where
  "after_last c s = rev (takeWhile (\<lambda>x. x \<noteq> c) (rev s))"

definition base_name :: "string \<Rightarrow> string" where
  "base_name path =
     (if backslash \<in> set path then after_last backslash path
      else if CHR ''/'' \<in> set path then after_last (CHR ''/'') path
      else path)"

fun strstr :: "string \<Rightarrow> string \<Rightarrow> bool" where
  "strstr [] needle = (needle = [])"
| "strstr (c # cs) needle = (take (length needle) (c # cs) = needle \<or> strstr cs needle)"

definition lower :: "char \<Rightarrow> char" where
  "lower c =
     (if (65::nat) \<le> of_char c \<and> of_char c \<le> (90::nat) then char_of (of_char c + (32::nat))
      else c)"

fun compat_stricmp :: "string \<Rightarrow> string \<Rightarrow> int" where
  "compat_stricmp (a # as) (b # bs) =
     (if lower a \<noteq> lower b then int (of_char (lower a)) - int (of_char (lower b))
      else compat_stricmp as bs)"
| "compat_stricmp [] [] = 0"
| "compat_stricmp [] (b # bs) = - int (of_char b)"
| "compat_stricmp (a # as) [] = int (of_char a)"

text \<open>
  \<^verbatim>\<open>string_replace\<close>, for a pattern \<open>f # fs\<close> (the code passes the three non-empty
  literals of \<^verbatim>\<open>resolve_path\<close> only): the loop writes into a local buffer of
  \<open>2 * MAX_CMD_LEN\<close> bytes, \<open>remaining\<close> counting the room left.
\<close>

function string_replace_loop :: "string \<Rightarrow> char \<Rightarrow> string \<Rightarrow> string \<Rightarrow> nat \<Rightarrow> string" where
  "string_replace_loop pos f fs replace remaining =
     (if pos = [] \<or> remaining = 0 then []
      else if take (length (f # fs)) pos = f # fs
      then take (min (length replace) remaining) replace
           @ string_replace_loop (drop (length (f # fs)) pos) f fs replace
               (remaining - min (length replace) remaining)
      else hd pos # string_replace_loop (tl pos) f fs replace (remaining - 1))"
  by pat_completeness auto
termination
  by (relation "measure (\<lambda>(pos, f, fs, replace, remaining). length pos)") auto

declare string_replace_loop.simps [simp del]

definition string_replace :: "nat \<Rightarrow> string \<Rightarrow> char \<Rightarrow> string \<Rightarrow> string \<Rightarrow> string" where
  "string_replace dest_size src f fs replace =
     take (dest_size - 1) (string_replace_loop src f fs replace (2 * MAX_CMD_LEN - 1))"

definition resolve_path :: "string \<Rightarrow> nat \<Rightarrow> world \<Rightarrow> string" where
  "resolve_path path resolved_size st =
     (let temp0 = take (2 * MAX_CMD_LEN - 1) path;
          temp1 = string_replace (2 * MAX_CMD_LEN) temp0 (CHR ''$'') ''GAMENAME''
                    (GameConfiguration.name (G_CONFIG st));
          temp2 = string_replace (2 * MAX_CMD_LEN) temp1 (CHR ''$'') ''HOME'' (G_HOME_DIR st);
          temp3 = string_replace (2 * MAX_CMD_LEN) temp2 (CHR ''$'') ''ISO'' (iso_path (G_CONFIG st))
      in take (resolved_size - 1) temp3)"

section \<open>The tokenizer of compat.h\<close>

definition strspn :: "string \<Rightarrow> string \<Rightarrow> nat" where
  "strspn s accept = length (takeWhile (\<lambda>c. c \<in> set accept) s)"

definition strcspn :: "string \<Rightarrow> string \<Rightarrow> nat" where
  "strcspn s reject = length (takeWhile (\<lambda>c. c \<notin> set reject) s)"

text \<open>
  \<^verbatim>\<open>compat_strtok_s(str, delim, &context)\<close>. A pointer into the buffer is the string
  that starts there, \<open>None\<close> is \<open>NULL\<close>; the result is the token and the new context.
  Writing the NUL at the token's end cuts the token off the rest of the buffer.
\<close>

definition compat_strtok_s ::
  "string option \<Rightarrow> string \<Rightarrow> string option \<Rightarrow> string option \<times> string option" where
  "compat_strtok_s str delim context =
     (case (case str of Some s \<Rightarrow> Some s | None \<Rightarrow> context) of
        None \<Rightarrow> (None, context)
      | Some start0 \<Rightarrow>
          (let start = drop (strspn start0 delim) start0 in
           if start = [] then (None, None)
           else (let n = strcspn start delim in
                 if drop n start \<noteq> [] then (Some (take n start), Some (drop (n + 1) start))
                 else (Some (take n start), None))))"

text \<open>
  The loop shared by \<^verbatim>\<open>execute_sequence\<close> and \<^verbatim>\<open>action_kill_process_list\<close>:
  while the token is not \<open>NULL\<close>, trim it, run the body on it if it is not empty, and
  take the next token.
\<close>

function token_loop ::
  "(string \<Rightarrow> 's \<Rightarrow> 's option) \<Rightarrow> string option \<times> string option \<Rightarrow> 's \<Rightarrow> 's option" where
  "token_loop body (token, context) st =
     (case token of
        None \<Rightarrow> Some st
      | Some tok \<Rightarrow>
          (case (if length (trim_whitespace tok) > 0 then body (trim_whitespace tok) st
                 else Some st) of
             None \<Rightarrow> None
           | Some st' \<Rightarrow> token_loop body (compat_strtok_s None '','' context) st'))"
  by pat_completeness auto
termination
  by (relation "measure (\<lambda>(body, (token, context), st).
          (case token of None \<Rightarrow> 0 | Some t \<Rightarrow> 1)
          + (case context of None \<Rightarrow> 0 | Some s \<Rightarrow> 2 * length s + 2))")
     (auto simp: compat_strtok_s_def Let_def split: option.splits)

declare token_loop.simps [simp del]

section \<open>Actions\<close>

text \<open>
  The action functions of \<^verbatim>\<open>launcher.c\<close>. An action that can end up in
  \<^verbatim>\<open>terminate_process_tree\<close> takes the stack depth; an action that may wait for a
  process or recurse without end returns \<open>None\<close> when it does not return.
\<close>

definition kill_process_by_name :: "nat \<Rightarrow> string \<Rightarrow> world \<Rightarrow> world option" where
  "kill_process_by_name depth process_name st =
     (if \<not> os_snapshot_ok st then Some st
      else for_each
             (\<lambda>pe s. if compat_stricmp (szExeFile pe) process_name = 0
                      then terminate_process_tree depth (th32ProcessID pe) s
                      else Some s)
             (snapshot st) st)"

definition find_window :: "world \<Rightarrow> HANDLE" where
  "find_window st = os_shell_traywnd st"

definition set_taskbar_visibility :: "bool \<Rightarrow> world \<Rightarrow> world" where
  "set_taskbar_visibility shown st0 =
     (let st = (if G_TASKBAR_HWND st0 = 0 then st0\<lparr> G_TASKBAR_HWND := find_window st0 \<rparr>
                else st0)
      in if G_TASKBAR_HWND st \<noteq> 0
         then (let st1 = show_window (G_TASKBAR_HWND st) shown st
               in if \<not> shown then st1\<lparr> G_TASKBAR_WAS_HIDDEN := True \<rparr> else st1)
         else st)"

definition action_run_controller_mapper :: "bool \<Rightarrow> world \<Rightarrow> world option" where
  "action_run_controller_mapper is_exit st =
     (let cfg = G_CONFIG st;
          app = (if is_exit then mediacenter_profile cfg else controller_mapper_app cfg);
          p1 = (if is_exit then mediacenter_profile cfg else player1_profile cfg);
          p2 = (if is_exit then mediacenter_profile cfg else player2_profile cfg)
      in if length app = 0 \<or> length p1 = 0
         then Some (show_message ''  - Controller Mapper or P1 Profile not configured/found.'' st)
         else if \<not> file_exists app st
         then Some (show_message ''  - Controller Mapper executable not found.'' st)
         else if \<not> file_exists p1 st
         then Some (show_message ''  - Player 1 profile not found.'' st)
         else
           (let mapper_name = base_name app;
                cmd =
                  (if strstr mapper_name ''antimicro''
                   then (let c = snprintf MAX_CMD_LEN
                                   (dq @ app @ dq @ '' '' @ controller_mapper_options cfg
                                    @ '' --tray --hidden --profile '' @ dq @ p1 @ dq @ '' ''
                                    @ controller_mapper_arguments cfg)
                         in if length p2 > 0
                            then strncat c
                                   (snprintf MAX_CMD_LEN
                                      ('' --next --profile-controller 2 --profile '' @ dq @ p2 @ dq))
                                   (MAX_CMD_LEN - length c - 1)
                            else c)
                   else if strstr mapper_name ''joyxoff'' \<or> strstr mapper_name ''joy2key''
                           \<or> strstr mapper_name ''keysticks''
                   then snprintf MAX_CMD_LEN
                          (dq @ app @ dq @ '' -load '' @ dq @ p1 @ dq @ '' ''
                           @ controller_mapper_options cfg @ '' '' @ controller_mapper_arguments cfg)
                   else snprintf MAX_CMD_LEN
                          (dq @ app @ dq @ '' '' @ controller_mapper_options cfg @ '' ''
                           @ controller_mapper_arguments cfg))
            in case run_process cmd None False st of
                 None \<Rightarrow> None
               | Some (success, p, st1) \<Rightarrow>
                   Some (if success then add_tracked_process ''controller_mapper'' p st1 else st1)))"

definition action_kill_controller_mapper :: "nat \<Rightarrow> world \<Rightarrow> world option" where
  "action_kill_controller_mapper depth st =
     (case find_tracked_process ''controller_mapper'' st of
        Some tp \<Rightarrow>
          (case terminate_process_tree depth (dwProcessId (pi tp)) st of
             None \<Rightarrow> None
           | Some st1 \<Rightarrow>
               Some (remove_tracked_process ''controller_mapper''
                      (close_handle (hThread (pi tp)) (close_handle (hProcess (pi tp)) st1))))
      | None \<Rightarrow>
          if length (controller_mapper_app (G_CONFIG st)) > 0
          then kill_process_by_name depth (base_name (controller_mapper_app (G_CONFIG st))) st
          else Some st)"

text \<open>The common body of the two monitor actions, which differ in the configuration file.\<close>

definition run_monitor_config :: "string \<Rightarrow> world \<Rightarrow> world option" where
  "run_monitor_config config_file st =
     (let cfg = G_CONFIG st
      in if length (multimonitor_tool cfg) = 0 \<or> length config_file = 0 then Some st
         else if \<not> file_exists (multimonitor_tool cfg) st then Some st
         else if \<not> file_exists config_file st then Some st
         else run_and_forget
                (snprintf MAX_CMD_LEN
                   (dq @ multimonitor_tool cfg @ dq @ '' '' @ multimonitor_options cfg
                    @ '' /load '' @ dq @ config_file @ dq @ '' '' @ multimonitor_arguments cfg))
                None True st)"

definition action_run_monitor_config_game :: "world \<Rightarrow> world option" where
  "action_run_monitor_config_game st = run_monitor_config (mm_game_config (G_CONFIG st)) st"

definition action_run_monitor_config_desktop :: "world \<Rightarrow> world option" where
  "action_run_monitor_config_desktop st = run_monitor_config (mm_desktop_config (G_CONFIG st)) st"

definition action_hide_taskbar :: "world \<Rightarrow> world" where
  "action_hide_taskbar st =
     (if hide_taskbar (G_CONFIG st) then set_taskbar_visibility False st else st)"

definition action_show_taskbar :: "world \<Rightarrow> world" where
  "action_show_taskbar st = set_taskbar_visibility True st"

definition action_run_borderless :: "world \<Rightarrow> world option" where
  "action_run_borderless st =
     (let cfg = G_CONFIG st
      in if (borderless cfg = ''E'' \<or> borderless cfg = ''K'')
            \<and> length (borderless_windowing_app cfg) > 0
         then if \<not> file_exists (borderless_windowing_app cfg) st then Some st
              else (case run_process
                           (snprintf MAX_CMD_LEN
                              (dq @ borderless_windowing_app cfg @ dq @ '' ''
                               @ borderless_options cfg @ '' '' @ borderless_arguments cfg))
                           None False st of
                      None \<Rightarrow> None
                    | Some (success, p, st1) \<Rightarrow>
                        Some (if success
                              then close_handle (hThread p)
                                     (st1\<lparr> G_BORDERLESS_PROCESS := hProcess p \<rparr>)
                              else st1))
         else Some st)"

definition action_kill_borderless :: "nat \<Rightarrow> world \<Rightarrow> world option" where
  "action_kill_borderless depth st =
     (let cfg = G_CONFIG st
      in if terminate_borderless_on_exit cfg \<and> G_BORDERLESS_PROCESS st \<noteq> 0
         then (case terminate_process_tree depth
                      (get_process_id (G_BORDERLESS_PROCESS st) st) st of
                 None \<Rightarrow> None
               | Some st1 \<Rightarrow>
                   Some ((close_handle (G_BORDERLESS_PROCESS st) st1)
                           \<lparr> G_BORDERLESS_PROCESS := 0 \<rparr>))
         else if terminate_borderless_on_exit cfg \<and> length (borderless_windowing_app cfg) > 0
         then kill_process_by_name depth (base_name (borderless_windowing_app cfg)) st
         else Some st)"

definition action_run_cloud_sync :: "world \<Rightarrow> world option" where
  "action_run_cloud_sync st =
     (let cfg = G_CONFIG st
      in if length (cloud_app cfg) = 0 then Some st
         else if \<not> file_exists (cloud_app cfg) st then Some st
         else run_and_forget
                (snprintf MAX_CMD_LEN
                   (dq @ cloud_app cfg @ dq @ '' '' @ cloud_app_options cfg @ '' ''
                    @ cloud_app_arguments cfg))
                None True st)"

text \<open>\<^verbatim>\<open>strncat(cmd, " ", ...); strncat(cmd, text, ...)\<close> on the command buffer.\<close>

definition append_arg :: "string \<Rightarrow> string \<Rightarrow> string" where
  "append_arg cmd text =
     (let c = strncat cmd '' '' (MAX_CMD_LEN - length cmd - 1)
      in strncat c text (MAX_CMD_LEN - length c - 1))"

definition action_run_generic_app ::
  "string \<Rightarrow> bool \<Rightarrow> string \<Rightarrow> string \<Rightarrow> world \<Rightarrow> world option" where
  "action_run_generic_app app_path wait options args st =
     (if length app_path = 0 then Some st
      else (let resolved = resolve_path app_path MAX_PATH_LEN st
            in if \<not> file_exists resolved st then Some st
               else (let cmd0 = snprintf MAX_CMD_LEN (dq @ resolved @ dq);
                         cmd1 = (if length options > 0 then append_arg cmd0 options else cmd0);
                         cmd2 = (if length args > 0 then append_arg cmd1 args else cmd1)
                     in case run_process cmd2 None wait st of
                          None \<Rightarrow> None
                        | Some (success, p, st1) \<Rightarrow>
                            Some (if \<not> wait \<and> hProcess p \<noteq> 0
                                  then add_tracked_process (take (MAX_NAME_LEN - 1) resolved) p st1
                                  else st1))))"

definition action_kill_game :: "nat \<Rightarrow> world \<Rightarrow> world option" where
  "action_kill_game depth st =
     (if length (executable (G_CONFIG st)) > 0
      then kill_process_by_name depth (base_name (executable (G_CONFIG st))) st
      else Some st)"

definition action_kill_process_list :: "nat \<Rightarrow> world \<Rightarrow> world option" where
  "action_kill_process_list depth st =
     (if \<not> use_kill_list (G_CONFIG st) \<or> length (kill_list (G_CONFIG st)) = 0 then Some st
      else token_loop (kill_process_by_name depth)
             (compat_strtok_s (Some (take (MAX_CMD_LEN - 1) (kill_list (G_CONFIG st)))) '','' None)
             st)"

definition action_mount_iso :: "world \<Rightarrow> world option" where
  "action_mount_iso st =
     (if length (iso_path (G_CONFIG st)) = 0 then Some st
      else (let resolved = resolve_path (iso_path (G_CONFIG st)) MAX_PATH_LEN st
            in if \<not> file_exists resolved st then Some st
               else (case run_and_forget
                            (snprintf MAX_CMD_LEN
                               (''powershell -Command '' @ dq @ ''Mount-DiskImage -ImagePath ''
                                @ sq @ resolved @ sq @ dq))
                            None True
                            (show_message ''Mounting ISO with native Windows...'' st) of
                       None \<Rightarrow> None
                     | Some st1 \<Rightarrow> Some (sleep_ms 2000 st1))))"

definition action_unmount_iso :: "world \<Rightarrow> world option" where
  "action_unmount_iso st =
     (if length (iso_path (G_CONFIG st)) = 0 then Some st
      else (let resolved = resolve_path (iso_path (G_CONFIG st)) MAX_PATH_LEN st
            in run_and_forget
                 (snprintf MAX_CMD_LEN
                    (''powershell -Command '' @ dq @ ''Dismount-DiskImage -ImagePath ''
                     @ sq @ resolved @ sq @ dq))
                 None True
                 (show_message ''Unmounting ISO with native Windows...'' st)))"

definition action_mount_disc_with_app :: "world \<Rightarrow> world option" where
  "action_mount_disc_with_app st =
     (let cfg = G_CONFIG st
      in if length (disc_mount_app cfg) = 0 \<or> length (iso_path cfg) = 0 then action_mount_iso st
         else (let resolved_app = resolve_path (disc_mount_app cfg) MAX_PATH_LEN st;
                   resolved_iso = resolve_path (iso_path cfg) MAX_PATH_LEN st
               in if \<not> file_exists resolved_app st then action_mount_iso st
                  else if \<not> file_exists resolved_iso st then Some st
                  else (let cmd0 = snprintf MAX_CMD_LEN (dq @ resolved_app @ dq);
                            cmd1 = (if length (disc_mount_options cfg) > 0
                                    then append_arg cmd0 (disc_mount_options cfg) else cmd0);
                            cmd2 = strncat cmd1 ('' '' @ dq) (MAX_CMD_LEN - length cmd1 - 1);
                            cmd3 = strncat cmd2 resolved_iso (MAX_CMD_LEN - length cmd2 - 1);
                            cmd4 = strncat cmd3 dq (MAX_CMD_LEN - length cmd3 - 1);
                            cmd5 = (if length (disc_mount_arguments cfg) > 0
                                    then append_arg cmd4 (disc_mount_arguments cfg) else cmd4)
                        in case run_and_forget cmd5 None (disc_mount_wait cfg)
                                  (show_message ''Mounting disc with external app...'' st) of
                             None \<Rightarrow> None
                           | Some st1 \<Rightarrow>
                               Some (if \<not> disc_mount_wait cfg then sleep_ms 2000 st1 else st1))))"

definition action_unmount_disc_with_app :: "world \<Rightarrow> world option" where
  "action_unmount_disc_with_app st =
     (let cfg = G_CONFIG st
      in if length (disc_unmount_app cfg) = 0 \<or> length (iso_path cfg) = 0
         then action_unmount_iso st
         else (let resolved_app = resolve_path (disc_unmount_app cfg) MAX_PATH_LEN st;
                   resolved_iso = resolve_path (iso_path cfg) MAX_PATH_LEN st
               in if \<not> file_exists resolved_app st then action_unmount_iso st
                  else (let cmd0 = snprintf MAX_CMD_LEN (dq @ resolved_app @ dq);
                            cmd1 = (if length (disc_unmount_options cfg) > 0
                                    then append_arg cmd0 (disc_unmount_options cfg) else cmd0);
                            cmd2 = strncat cmd1 ('' --unmount '' @ dq)
                                     (MAX_CMD_LEN - length cmd1 - 1);
                            cmd3 = strncat cmd2 resolved_iso (MAX_CMD_LEN - length cmd2 - 1);
                            cmd4 = strncat cmd3 dq (MAX_CMD_LEN - length cmd3 - 1);
                            cmd5 = (if length (disc_unmount_arguments cfg) > 0
                                    then append_arg cmd4 (disc_unmount_arguments cfg) else cmd4)
                        in run_and_forget cmd5 None (disc_unmount_wait cfg)
                             (show_message ''Unmounting disc with external app...'' st))))"

section \<open>Sequence Orchestration Engine\<close>

text \<open>
  \<open>known_actions\<close> lists the literals of the \<^verbatim>\<open>strcmp\<close> chain of \<^verbatim>\<open>execute_action\<close>;
  \<^verbatim>\<open>execute_sequence\<close> returns at once on an empty string and when \<^verbatim>\<open>_strdup\<close> fails.
\<close>

definition known_actions :: "string list" where
  "known_actions = [''Kill-Game'', ''Kill-List'', ''Controller-Mapper'', ''Monitor-Config'',
     ''No-TB'', ''Taskbar'', ''Borderless'', ''Cloud-Sync'', ''mount-disc'', ''Unmount-disc'',
     ''Pre1'', ''Pre2'', ''Pre3'', ''Post1'', ''Post2'', ''Post3'', ''JustAfterLaunch'',
     ''JustBeforeExit'']"

definition unknown_action_message :: "string \<Rightarrow> string" where
  "unknown_action_message action = snprintf 256 (''  - Unknown action: '' @ action)"

definition execute_action :: "nat \<Rightarrow> string \<Rightarrow> bool \<Rightarrow> world \<Rightarrow> world option" where
  "execute_action depth action is_exit_sequence st0 =
     (let st = show_message action st0; cfg = G_CONFIG st
      in if action = ''Kill-Game'' then action_kill_game depth st
         else if action = ''Kill-List'' then action_kill_process_list depth st
         else if action = ''Controller-Mapper''
         then (if is_exit_sequence then action_kill_controller_mapper depth st
               else action_run_controller_mapper False st)
         else if action = ''Monitor-Config''
         then (if is_exit_sequence then action_run_monitor_config_desktop st
               else action_run_monitor_config_game st)
         else if action = ''No-TB''
         then (if \<not> is_exit_sequence then Some (action_hide_taskbar st) else Some st)
         else if action = ''Taskbar''
         then (if is_exit_sequence then Some (action_show_taskbar st) else Some st)
         else if action = ''Borderless''
         then (if is_exit_sequence then action_kill_borderless depth st
               else action_run_borderless st)
         else if action = ''Cloud-Sync'' then action_run_cloud_sync st
         else if action = ''mount-disc''
         then (if \<not> is_exit_sequence then action_mount_disc_with_app st else Some st)
         else if action = ''Unmount-disc''
         then (if is_exit_sequence then action_unmount_disc_with_app st else Some st)
         else if action = ''Pre1''
         then action_run_generic_app (pre_launch_app_1 cfg) (pre_launch_app_1_wait cfg)
                (pre_launch_app_1_options cfg) (pre_launch_app_1_arguments cfg) st
         else if action = ''Pre2''
         then action_run_generic_app (pre_launch_app_2 cfg) (pre_launch_app_2_wait cfg)
                (pre_launch_app_2_options cfg) (pre_launch_app_2_arguments cfg) st
         else if action = ''Pre3''
         then action_run_generic_app (pre_launch_app_3 cfg) (pre_launch_app_3_wait cfg)
                (pre_launch_app_3_options cfg) (pre_launch_app_3_arguments cfg) st
         else if action = ''Post1''
         then action_run_generic_app (post_launch_app_1 cfg) (post_launch_app_1_wait cfg)
                (post_launch_app_1_options cfg) (post_launch_app_1_arguments cfg) st
         else if action = ''Post2''
         then action_run_generic_app (post_launch_app_2 cfg) (post_launch_app_2_wait cfg)
                (post_launch_app_2_options cfg) (post_launch_app_2_arguments cfg) st
         else if action = ''Post3''
         then action_run_generic_app (post_launch_app_3 cfg) (post_launch_app_3_wait cfg)
                (post_launch_app_3_options cfg) (post_launch_app_3_arguments cfg) st
         else if action = ''JustAfterLaunch''
         then action_run_generic_app (just_after_launch_app cfg) (just_after_launch_wait cfg)
                (just_after_launch_options cfg) (just_after_launch_arguments cfg) st
         else if action = ''JustBeforeExit''
         then action_run_generic_app (just_before_exit_app cfg) (just_before_exit_wait cfg)
                (just_before_exit_options cfg) (just_before_exit_arguments cfg) st
         else Some (show_message (unknown_action_message action) st))"

definition execute_sequence :: "nat \<Rightarrow> string \<Rightarrow> bool \<Rightarrow> world \<Rightarrow> world option" where
  "execute_sequence depth sequence_str is_exit_sequence st =
     (if length sequence_str = 0 then Some st
      else if \<not> os_heap_ok st then Some st
      else token_loop (\<lambda>token. execute_action depth token is_exit_sequence)
             (compat_strtok_s (Some sequence_str) '','' None) st)"

section \<open>What a sequence string dispatches\<close>

text \<open>
  The tokens as the specification words them: split the string at every comma, remove
  leading and trailing blanks of each piece, drop the pieces that are empty then.
\<close>

fun split_on :: "char \<Rightarrow> string \<Rightarrow> string list" where
  "split_on c [] = [[]]"
| "split_on c (x # xs) =
     (if x = c then [] # split_on c xs
      else (case split_on c xs of [] \<Rightarrow> [[x]] | p # ps \<Rightarrow> (x # p) # ps))"

definition trim_spec :: "string \<Rightarrow> string" where
  "trim_spec s = rev (dropWhile is_trim_char (rev (dropWhile is_trim_char s)))"

definition sequence_tokens :: "string \<Rightarrow> string list" where
  "sequence_tokens s = filter (\<lambda>t. t \<noteq> []) (map trim_spec (split_on (CHR '','') s))"

lemma trim_trailing_rev: "trim_trailing s = rev (dropWhile is_trim_char (rev s))"
proof (induction s rule: rev_induct)
  case Nil
  show ?case by (simp add: trim_trailing.simps)
next
  case (snoc x xs)
  show ?case
    using snoc.IH by (subst trim_trailing.simps) simp
qed

lemma trim_whitespace_spec: "trim_whitespace s = trim_spec s"
  by (simp add: trim_whitespace_def trim_spec_def trim_trailing_rev)

lemma split_on_no_comma: "c \<notin> set a \<Longrightarrow> split_on c a = [a]"
  by (induction a) auto

lemma split_on_at_comma: "c \<notin> set a \<Longrightarrow> split_on c (a @ c # r) = a # split_on c r"
  by (induction a) auto

lemma sequence_tokens_Nil: "sequence_tokens [] = []"
  by (simp add: sequence_tokens_def trim_spec_def)

lemma sequence_tokens_comma: "sequence_tokens (CHR '','' # r) = sequence_tokens r"
  by (simp add: sequence_tokens_def trim_spec_def)

lemma sequence_tokens_leading:
  "sequence_tokens (dropWhile (\<lambda>c. c = CHR '','') s) = sequence_tokens s"
  by (induction s) (simp_all add: sequence_tokens_comma)

lemma sequence_tokens_last:
  "CHR '','' \<notin> set a \<Longrightarrow> sequence_tokens a = filter (\<lambda>t. t \<noteq> []) [trim_spec a]"
  by (simp add: sequence_tokens_def split_on_no_comma)

lemma sequence_tokens_piece:
  "CHR '','' \<notin> set a \<Longrightarrow>
   sequence_tokens (a @ CHR '','' # r) = filter (\<lambda>t. t \<noteq> []) [trim_spec a] @ sequence_tokens r"
  by (simp add: sequence_tokens_def split_on_at_comma)

lemma strtok_end: "compat_strtok_s None '','' None = (None, None)"
  by (simp add: compat_strtok_s_def)

lemma strtok_same: "compat_strtok_s (Some s) '','' None = compat_strtok_s None '','' (Some s)"
  by (simp add: compat_strtok_s_def)

lemma token_loop_done: "token_loop body (None, c) st = Some st"
  by (simp add: token_loop.simps)

lemma for_each_append:
  "for_each body (xs @ ys) st =
     (case for_each body xs st of None \<Rightarrow> None | Some st' \<Rightarrow> for_each body ys st')"
  by (induction xs arbitrary: st) (auto split: option.splits)

lemma strspn_comma: "drop (strspn s '','') s = dropWhile (\<lambda>c. c = CHR '','') s"
  unfolding strspn_def by (simp add: dropWhile_eq_drop [symmetric])

lemma strcspn_piece:
  "CHR '','' \<notin> set tok \<Longrightarrow> strcspn (tok @ CHR '','' # r) '','' = length tok"
  unfolding strcspn_def by (induction tok) auto

lemma strcspn_whole:
  "CHR '','' \<notin> set tok \<Longrightarrow> strcspn tok '','' = length tok"
  unfolding strcspn_def by (induction tok) auto

lemma strtok_none:
  "dropWhile (\<lambda>c. c = CHR '','') s = [] \<Longrightarrow> compat_strtok_s None '','' (Some s) = (None, None)"
  unfolding compat_strtok_s_def by (simp only: strspn_comma option.case Let_def) simp

lemma strtok_last:
  assumes "dropWhile (\<lambda>c. c = CHR '','') s = tok" and "tok \<noteq> []" and "CHR '','' \<notin> set tok"
  shows "compat_strtok_s None '','' (Some s) = (Some tok, None)"
proof -
  have n: "strcspn tok '','' = length tok" using assms(3) by (rule strcspn_whole)
  show ?thesis
    unfolding compat_strtok_s_def
    by (simp only: strspn_comma assms(1) option.case Let_def n) (simp add: assms(2))
qed

lemma strtok_more:
  assumes "dropWhile (\<lambda>c. c = CHR '','') s = tok @ CHR '','' # r" and "CHR '','' \<notin> set tok"
  shows "compat_strtok_s None '','' (Some s) = (Some tok, Some r)"
proof -
  have n: "strcspn (tok @ CHR '','' # r) '','' = length tok" using assms(2) by (rule strcspn_piece)
  show ?thesis
    unfolding compat_strtok_s_def
    by (simp only: strspn_comma assms(1) option.case Let_def n) simp
qed

lemma token_loop_step:
  "token_loop body (Some tok, c) st =
     (case for_each body (filter (\<lambda>t. t \<noteq> []) [trim_spec tok]) st of
        None \<Rightarrow> None
      | Some st' \<Rightarrow> token_loop body (compat_strtok_s None '','' c) st')"
  by (subst token_loop.simps) (simp add: trim_whitespace_spec split: option.splits)

lemma token_loop_tokens:
  "token_loop body (compat_strtok_s None '','' (Some s)) st = for_each body (sequence_tokens s) st"
proof (induction "length s" arbitrary: s st rule: less_induct)
  case less
  define s' where "s' = dropWhile (\<lambda>c. c = CHR '','') s"
  define tok where "tok = takeWhile (\<lambda>c. c \<noteq> CHR '','') s'"
  define rest where "rest = dropWhile (\<lambda>c. c \<noteq> CHR '','') s'"
  have split: "s' = tok @ rest" by (simp add: tok_def rest_def)
  have nocomma: "CHR '','' \<notin> set tok"
    unfolding tok_def by (auto dest: set_takeWhileD)
  have toks: "sequence_tokens s = sequence_tokens s'"
    unfolding s'_def by (rule sequence_tokens_leading [symmetric])
  show ?case
  proof (cases "s' = []")
    case True
    have "compat_strtok_s None '','' (Some s) = (None, None)"
      using True unfolding s'_def by (rule strtok_none)
    then show ?thesis
      using True toks by (simp add: token_loop_done sequence_tokens_Nil)
  next
    case False
    show ?thesis
    proof (cases "rest = []")
      case True
      then have whole: "s' = tok" using split by simp
      have "compat_strtok_s None '','' (Some s) = (Some tok, None)"
        using whole False nocomma s'_def by (intro strtok_last) simp_all
      moreover have "sequence_tokens s = filter (\<lambda>t. t \<noteq> []) [trim_spec tok]"
        using toks whole sequence_tokens_last [OF nocomma] by simp
      ultimately show ?thesis
        by (simp only: token_loop_step strtok_end token_loop_done) (simp split: option.splits)
    next
      case more: False
      have "\<not> (hd rest \<noteq> CHR '','')"
        using more unfolding rest_def by (rule hd_dropWhile)
      then have "hd rest = CHR '',''" by simp
      then have r: "rest = CHR '','' # tl rest"
        using more by (cases rest) simp_all
      have parts: "s' = tok @ CHR '','' # tl rest"
        using split r by simp
      have "length s' = length tok + Suc (length (tl rest))"
        by (subst parts) simp
      moreover have "length s' \<le> length s"
        unfolding s'_def by (rule length_dropWhile_le)
      ultimately have shorter: "length (tl rest) < length s" by simp
      have strtok: "compat_strtok_s None '','' (Some s) = (Some tok, Some (tl rest))"
        using parts nocomma unfolding s'_def by (rule strtok_more)
      have "sequence_tokens s' =
          filter (\<lambda>t. t \<noteq> []) [trim_spec tok] @ sequence_tokens (tl rest)"
        by (subst parts) (rule sequence_tokens_piece [OF nocomma])
      then have all: "sequence_tokens s =
          filter (\<lambda>t. t \<noteq> []) [trim_spec tok] @ sequence_tokens (tl rest)"
        using toks by simp
      show ?thesis
        by (simp only: strtok all token_loop_step less.hyps [OF shorter] for_each_append)
    qed
  qed
qed

lemma for_each_record: "for_each (\<lambda>a l. Some (l @ [a])) xs l = Some (l @ xs)"
  by (induction xs arbitrary: l) auto

lemma execute_sequence_for_each:
  "os_heap_ok st \<Longrightarrow>
   execute_sequence depth s is_exit st =
     for_each (\<lambda>a. execute_action depth a is_exit) (sequence_tokens s) st"
  by (cases s) (simp_all add: execute_sequence_def strtok_same token_loop_tokens sequence_tokens_Nil)

lemma trim_spec_ends:
  "trim_spec p \<noteq> [] \<Longrightarrow> \<not> is_trim_char (hd (trim_spec p)) \<and> \<not> is_trim_char (last (trim_spec p))"
proof -
  assume ne: "trim_spec p \<noteq> []"
  let ?a = "dropWhile is_trim_char p"
  let ?b = "dropWhile is_trim_char (rev ?a)"
  have t: "trim_spec p = rev ?b" by (simp add: trim_spec_def)
  have b: "?b \<noteq> []" using ne t by simp
  then have l: "\<not> is_trim_char (hd ?b)" by (rule hd_dropWhile)
  have a: "?a \<noteq> []"
  proof
    assume a0: "?a = []"
    have "?b = []" by (simp only: a0 rev.simps dropWhile.simps)
    then show False using b by simp
  qed
  then have h: "\<not> is_trim_char (hd ?a)" by (rule hd_dropWhile)
  have "last (rev ?a) = hd ?a" using a by (simp add: last_rev)
  moreover have "last ?b = last (rev ?a)"
    using b by (metis (no_types) append_Nil2 last_appendR takeWhile_dropWhile_id)
  ultimately have "hd (rev ?b) = hd ?a" using b by (simp add: hd_rev)
  then show ?thesis using l h b t by (simp add: last_rev)
qed


lemma sequence_tokens_example:
  "sequence_tokens ''Pre1, Controller-Mapper ,Taskbar'' = [''Pre1'', ''Controller-Mapper'', ''Taskbar'']"
  by (simp add: sequence_tokens_def trim_spec_def is_trim_char_def)

lemma sequence_tokens_trimmed:
  "t \<in> set (sequence_tokens s) \<Longrightarrow> t \<noteq> [] \<and> \<not> is_trim_char (hd t) \<and> \<not> is_trim_char (last t)"
  by (auto simp: sequence_tokens_def dest: trim_spec_ends)

text \<open>
  C6. When the copy of the string can be allocated, \<open>execute_sequence\<close> is the loop
  that runs \<open>execute_action\<close> on the tokens of the specification, one after the other
  from left to right (a later action starts when the earlier one has returned). Run
  with a body that only records its argument, the loop of the code records exactly
  these tokens. No token is empty, none begins or ends with a blank (space, tab, line
  feed, carriage return: the characters \<^verbatim>\<open>trim_whitespace\<close> removes), and the example
  string gives Pre1, Controller-Mapper, Taskbar.
\<close>

theorem execute_sequence_dispatches_tokens:
  assumes "os_heap_ok st"
  shows "execute_sequence depth s is_exit st =
           for_each (\<lambda>a. execute_action depth a is_exit) (sequence_tokens s) st
       \<and> token_loop (\<lambda>a l. Some (l @ [a])) (compat_strtok_s (Some s) '','' None) [] =
           Some (sequence_tokens s)
       \<and> [] \<notin> set (sequence_tokens s)
       \<and> (\<forall>t \<in> set (sequence_tokens s). \<not> is_trim_char (hd t) \<and> \<not> is_trim_char (last t))
       \<and> sequence_tokens ''Pre1, Controller-Mapper ,Taskbar'' =
           [''Pre1'', ''Controller-Mapper'', ''Taskbar'']"
proof -
  have "token_loop (\<lambda>a l. Some (l @ [a])) (compat_strtok_s (Some s) '','' None) [] =
          Some (sequence_tokens s)"
    by (simp add: strtok_same token_loop_tokens for_each_record)
  moreover have "[] \<notin> set (sequence_tokens s)"
    using sequence_tokens_trimmed by blast
  ultimately show ?thesis
    using execute_sequence_for_each [OF assms] sequence_tokens_trimmed sequence_tokens_example
    by blast
qed

lemmas run_defs = execute_action_def show_message_def log_message_def
  action_run_generic_app_def action_run_controller_mapper_def action_hide_taskbar_def
  action_show_taskbar_def set_taskbar_visibility_def show_window_def find_window_def
  os_call_def unknown_action_message_def snprintf_def

theorem execute_sequence_dispatches_tokens_witness:
  "os_heap_ok boot_world
   \<and> map_option console
       (execute_sequence 1 ''Pre1, Controller-Mapper ,Taskbar'' False boot_world) =
     Some [''Pre1'', ''Controller-Mapper'',
           ''  - Controller Mapper or P1 Profile not configured/found.'', ''Taskbar'']"
proof -
  have h: "os_heap_ok boot_world" by (simp add: boot_world_def)
  have run: "execute_sequence 1 ''Pre1, Controller-Mapper ,Taskbar'' False boot_world =
      for_each (\<lambda>a. execute_action 1 a False) [''Pre1'', ''Controller-Mapper'', ''Taskbar'']
        boot_world"
    using execute_sequence_dispatches_tokens [OF h, of 1 "''Pre1, Controller-Mapper ,Taskbar''" False]
    by simp
  have ev: "map_option console
      (for_each (\<lambda>a. execute_action 1 a False) [''Pre1'', ''Controller-Mapper'', ''Taskbar'']
        boot_world) =
     Some [''Pre1'', ''Controller-Mapper'',
           ''  - Controller Mapper or P1 Profile not configured/found.'', ''Taskbar'']"
    by (simp add: run_defs boot_world_def zero_config_def Let_def)
  show ?thesis
    unfolding run using h ev by blast
qed

lemma unknown_action_logged:
  assumes "action \<notin> set known_actions"
  shows "execute_action depth action is_exit w =
           Some (show_message (unknown_action_message action) (show_message action w))"
  using assms by (simp add: known_actions_def execute_action_def Let_def)

lemma show_message_taskbar:
  "os_shell_traywnd (show_message m w) = os_shell_traywnd w"
  "G_TASKBAR_HWND (show_message m w) = G_TASKBAR_HWND w"
  "os_heap_ok (show_message m w) = os_heap_ok w"
  "G_CONFIG (show_message m w) = G_CONFIG w"
  "os_taskbar_visible (show_message m w) = os_taskbar_visible w"
  "os_calls (show_message m w) = os_calls w"
  "console (show_message m w) = console w @ [m]"
  by (simp_all add: show_message_def log_message_def)

lemma show_taskbar_visible:
  assumes "os_shell_traywnd w \<noteq> 0"
    and "G_TASKBAR_HWND w = 0 \<or> G_TASKBAR_HWND w = os_shell_traywnd w"
  shows "os_taskbar_visible (set_taskbar_visibility True w)"
    and "os_calls (set_taskbar_visibility True w) = os_calls w @ [ShowWindow (os_shell_traywnd w) True]"
    and "G_TASKBAR_HWND (set_taskbar_visibility True w) = os_shell_traywnd w"
  using assms
  by (auto simp: set_taskbar_visibility_def show_window_def find_window_def os_call_def Let_def)

lemma hide_taskbar_hidden:
  assumes "os_shell_traywnd w \<noteq> 0"
    and "G_TASKBAR_HWND w = 0 \<or> G_TASKBAR_HWND w = os_shell_traywnd w"
  shows "\<not> os_taskbar_visible (set_taskbar_visibility False w)"
    and "os_calls (set_taskbar_visibility False w) = os_calls w @ [ShowWindow (os_shell_traywnd w) False]"
    and "G_TASKBAR_HWND (set_taskbar_visibility False w) = os_shell_traywnd w"
    and "G_TASKBAR_WAS_HIDDEN (set_taskbar_visibility False w)"
  using assms
  by (auto simp: set_taskbar_visibility_def show_window_def find_window_def os_call_def Let_def)

lemma bogus_taskbar_tokens: "sequence_tokens ''Bogus,Taskbar'' = [''Bogus'', ''Taskbar'']"
  by (simp add: sequence_tokens_def trim_spec_def is_trim_char_def)

lemma taskbar_on_exit:
  "execute_action depth ''Taskbar'' True w = Some (action_show_taskbar (show_message ''Taskbar'' w))"
  by (simp add: execute_action_def Let_def)

text \<open>
  C7. A token that is none of the known actions makes \<open>execute_action\<close> return after
  printing the token and the diagnostic "  - Unknown action: ..." (cut to 255 bytes),
  and nothing else changes. In a sequence, the tokens after it are dispatched from that
  state exactly as they would be otherwise. So "Bogus,Taskbar" on exit ends in
  \<open>action_show_taskbar\<close>, and where the taskbar window exists (and the cached handle is
  unset or is that window) the taskbar is visible afterwards, \<^verbatim>\<open>ShowWindow\<close> being the
  one system call made.
\<close>

theorem unknown_action_does_not_abort:
  assumes "os_heap_ok st" and "unknown \<notin> set known_actions"
    and "sequence_tokens s = before @ unknown # after"
  shows "execute_action depth unknown is_exit w =
           Some (show_message (unknown_action_message unknown) (show_message unknown w))
       \<and> console (show_message (unknown_action_message unknown) (show_message unknown w)) =
           console w @ [unknown, take 255 (''  - Unknown action: '' @ unknown)]
       \<and> execute_sequence depth s is_exit st =
           (case for_each (\<lambda>a. execute_action depth a is_exit) before st of
              None \<Rightarrow> None
            | Some mid \<Rightarrow>
                for_each (\<lambda>a. execute_action depth a is_exit) after
                  (show_message (unknown_action_message unknown) (show_message unknown mid)))
       \<and> execute_sequence depth ''Bogus,Taskbar'' True st =
           Some (action_show_taskbar (show_message ''Taskbar''
                  (show_message ''  - Unknown action: Bogus'' (show_message ''Bogus'' st))))
       \<and> (os_shell_traywnd st \<noteq> 0
            \<and> (G_TASKBAR_HWND st = 0 \<or> G_TASKBAR_HWND st = os_shell_traywnd st)
          \<longrightarrow> (\<exists>st'. execute_sequence depth ''Bogus,Taskbar'' True st = Some st'
                 \<and> os_taskbar_visible st'
                 \<and> os_calls st' = os_calls st @ [ShowWindow (os_shell_traywnd st) True]))"
proof -
  have one: "execute_action depth unknown is_exit w =
           Some (show_message (unknown_action_message unknown) (show_message unknown w))" for w
    using assms(2) by (rule unknown_action_logged)
  have diag: "console (show_message (unknown_action_message unknown) (show_message unknown w)) =
           console w @ [unknown, take 255 (''  - Unknown action: '' @ unknown)]"
    by (simp add: show_message_taskbar unknown_action_message_def snprintf_def)
  have seq: "execute_sequence depth s is_exit st =
           (case for_each (\<lambda>a. execute_action depth a is_exit) before st of
              None \<Rightarrow> None
            | Some mid \<Rightarrow>
                for_each (\<lambda>a. execute_action depth a is_exit) after
                  (show_message (unknown_action_message unknown) (show_message unknown mid)))"
    by (simp add: execute_sequence_for_each [OF assms(1)] assms(3) for_each_append one
        split: option.splits)
  have "''Bogus'' \<notin> set known_actions" by (simp add: known_actions_def)
  then have bogus: "execute_action depth ''Bogus'' True st =
      Some (show_message ''  - Unknown action: Bogus'' (show_message ''Bogus'' st))"
    by (simp add: unknown_action_logged unknown_action_message_def snprintf_def)
  let ?mid = "show_message ''Taskbar''
                  (show_message ''  - Unknown action: Bogus'' (show_message ''Bogus'' st))"
  have ex: "execute_sequence depth ''Bogus,Taskbar'' True st = Some (action_show_taskbar ?mid)"
    by (simp add: execute_sequence_for_each [OF assms(1)] bogus_taskbar_tokens bogus
        taskbar_on_exit)
  have vis: "os_taskbar_visible (action_show_taskbar ?mid)
      \<and> os_calls (action_show_taskbar ?mid) = os_calls st @ [ShowWindow (os_shell_traywnd st) True]"
    if "os_shell_traywnd st \<noteq> 0"
      and "G_TASKBAR_HWND st = 0 \<or> G_TASKBAR_HWND st = os_shell_traywnd st"
  proof -
    have a: "os_shell_traywnd ?mid \<noteq> 0" using that(1) by (simp add: show_message_taskbar)
    have b: "G_TASKBAR_HWND ?mid = 0 \<or> G_TASKBAR_HWND ?mid = os_shell_traywnd ?mid"
      using that(2) by (simp add: show_message_taskbar)
    show ?thesis
      unfolding action_show_taskbar_def
      using show_taskbar_visible(1,2) [OF a b] by (simp add: show_message_taskbar)
  qed
  show ?thesis
    using one diag seq ex vis by simp
qed

theorem unknown_action_does_not_abort_witness:
  "os_heap_ok boot_world \<and> ''Bogus'' \<notin> set known_actions
   \<and> sequence_tokens ''Bogus,Taskbar'' = [] @ ''Bogus'' # [''Taskbar'']
   \<and> map_option console (execute_sequence 1 ''Bogus,Taskbar'' True boot_world) =
       Some [''Bogus'', ''  - Unknown action: Bogus'', ''Taskbar'']
   \<and> map_option os_calls (execute_sequence 1 ''Bogus,Taskbar'' True boot_world) =
       Some [ShowWindow 7 True]"
proof -
  have h1: "os_heap_ok boot_world" by (simp add: boot_world_def)
  have h2: "''Bogus'' \<notin> set known_actions" by (simp add: known_actions_def)
  have h3: "sequence_tokens ''Bogus,Taskbar'' = [] @ ''Bogus'' # [''Taskbar'']"
    by (simp add: bogus_taskbar_tokens)
  from unknown_action_does_not_abort [OF h1 h2 h3, of 1 True boot_world]
  have run: "execute_sequence 1 ''Bogus,Taskbar'' True boot_world =
           Some (action_show_taskbar (show_message ''Taskbar''
                  (show_message ''  - Unknown action: Bogus'' (show_message ''Bogus'' boot_world))))"
    by blast
  have ev: "console (action_show_taskbar (show_message ''Taskbar''
                  (show_message ''  - Unknown action: Bogus'' (show_message ''Bogus'' boot_world)))) =
       [''Bogus'', ''  - Unknown action: Bogus'', ''Taskbar'']
     \<and> os_calls (action_show_taskbar (show_message ''Taskbar''
                  (show_message ''  - Unknown action: Bogus'' (show_message ''Bogus'' boot_world)))) =
       [ShowWindow 7 True]"
    by (simp add: run_defs boot_world_def Let_def)
  show ?thesis
    unfolding run using h1 h2 h3 ev by simp
qed


section \<open>The taskbar scenario\<close>

definition notb_world :: world where
  "notb_world = boot_world\<lparr> G_CONFIG :=
     zero_config\<lparr> launch_sequence := ''No-TB'', exit_sequence := ''Taskbar'' \<rparr> \<rparr>"

definition hide_world :: world where
  "hide_world = boot_world\<lparr> G_CONFIG :=
     zero_config\<lparr> hide_taskbar := True, launch_sequence := ''No-TB'',
                  exit_sequence := ''Taskbar'' \<rparr> \<rparr>"

lemma notb_tokens: "sequence_tokens ''No-TB'' = [''No-TB'']"
  by (simp add: sequence_tokens_def trim_spec_def is_trim_char_def)

lemma taskbar_tokens: "sequence_tokens ''Taskbar'' = [''Taskbar'']"
  by (simp add: sequence_tokens_def trim_spec_def is_trim_char_def)

lemma notb_on_launch:
  "execute_action depth ''No-TB'' False w = Some (action_hide_taskbar (show_message ''No-TB'' w))"
  by (simp add: execute_action_def Let_def)

text \<open>
  The claim C9 as written fails: \<open>action_hide_taskbar\<close> hides the taskbar only when the
  option \<^verbatim>\<open>HideTaskbar\<close> is set. With launch sequence "No-TB" and the option unset the
  taskbar stays visible and no system call is made.
\<close>

theorem no_tb_without_option_counterexample:
  "launch_sequence (G_CONFIG notb_world) = ''No-TB''
   \<and> map_option os_taskbar_visible
       (execute_sequence 1 (launch_sequence (G_CONFIG notb_world)) False notb_world) = Some True
   \<and> map_option os_calls
       (execute_sequence 1 (launch_sequence (G_CONFIG notb_world)) False notb_world) = Some []"
proof -
  have h: "os_heap_ok notb_world" by (simp add: notb_world_def boot_world_def)
  have l: "launch_sequence (G_CONFIG notb_world) = ''No-TB''"
    by (simp add: notb_world_def)
  have run: "execute_sequence 1 ''No-TB'' False notb_world =
      Some (action_hide_taskbar (show_message ''No-TB'' notb_world))"
    by (simp add: execute_sequence_for_each [OF h] notb_tokens notb_on_launch)
  have ev: "os_taskbar_visible (action_hide_taskbar (show_message ''No-TB'' notb_world))
      \<and> os_calls (action_hide_taskbar (show_message ''No-TB'' notb_world)) = []"
    by (simp add: action_hide_taskbar_def show_message_taskbar notb_world_def boot_world_def
        zero_config_def)
  show ?thesis
    unfolding l run using ev by simp
qed

text \<open>
  C9, as the code has it. Let the taskbar window exist and the cached handle be unset or
  that window. If the option \<^verbatim>\<open>HideTaskbar\<close> is set, the launch sequence "No-TB" hides
  the taskbar (and remembers that it did); if it is not set, "No-TB" only prints its
  name. The exit sequence "Taskbar" shows the taskbar, from any later state \<open>later\<close> in
  which the taskbar window is still the same: whatever happened to the processes in
  between.
\<close>

theorem taskbar_hidden_then_shown:
  assumes "os_heap_ok st" and "os_shell_traywnd st \<noteq> 0"
    and "G_TASKBAR_HWND st = 0 \<or> G_TASKBAR_HWND st = os_shell_traywnd st"
    and "os_heap_ok later" and "os_shell_traywnd later = os_shell_traywnd st"
    and "G_TASKBAR_HWND later = 0 \<or> G_TASKBAR_HWND later = os_shell_traywnd st"
  shows "(hide_taskbar (G_CONFIG st) \<longrightarrow>
            (\<exists>st1. execute_sequence depth ''No-TB'' False st = Some st1
               \<and> \<not> os_taskbar_visible st1 \<and> G_TASKBAR_WAS_HIDDEN st1
               \<and> G_TASKBAR_HWND st1 = os_shell_traywnd st
               \<and> os_calls st1 = os_calls st @ [ShowWindow (os_shell_traywnd st) False]))
       \<and> (\<not> hide_taskbar (G_CONFIG st) \<longrightarrow>
            execute_sequence depth ''No-TB'' False st = Some (show_message ''No-TB'' st))
       \<and> (\<exists>st3. execute_sequence depth' ''Taskbar'' True later = Some st3
             \<and> os_taskbar_visible st3
             \<and> os_calls st3 = os_calls later @ [ShowWindow (os_shell_traywnd st) True])"
proof -
  let ?w = "show_message ''No-TB'' st"
  have run: "execute_sequence depth ''No-TB'' False st = Some (action_hide_taskbar ?w)"
    by (simp add: execute_sequence_for_each [OF assms(1)] notb_tokens notb_on_launch)
  have a: "os_shell_traywnd ?w \<noteq> 0" using assms(2) by (simp add: show_message_taskbar)
  have b: "G_TASKBAR_HWND ?w = 0 \<or> G_TASKBAR_HWND ?w = os_shell_traywnd ?w"
    using assms(3) by (simp add: show_message_taskbar)
  have hidden: "hide_taskbar (G_CONFIG st) \<longrightarrow>
            (\<exists>st1. execute_sequence depth ''No-TB'' False st = Some st1
               \<and> \<not> os_taskbar_visible st1 \<and> G_TASKBAR_WAS_HIDDEN st1
               \<and> G_TASKBAR_HWND st1 = os_shell_traywnd st
               \<and> os_calls st1 = os_calls st @ [ShowWindow (os_shell_traywnd st) False])"
    unfolding run action_hide_taskbar_def
    using hide_taskbar_hidden [OF a b] by (simp add: show_message_taskbar)
  have gate: "\<not> hide_taskbar (G_CONFIG st) \<longrightarrow>
            execute_sequence depth ''No-TB'' False st = Some (show_message ''No-TB'' st)"
    unfolding run action_hide_taskbar_def by (simp add: show_message_taskbar)
  let ?v = "show_message ''Taskbar'' later"
  have run2: "execute_sequence depth' ''Taskbar'' True later = Some (action_show_taskbar ?v)"
    by (simp add: execute_sequence_for_each [OF assms(4)] taskbar_tokens taskbar_on_exit)
  have c: "os_shell_traywnd ?v \<noteq> 0" using assms(2,5) by (simp add: show_message_taskbar)
  have d: "G_TASKBAR_HWND ?v = 0 \<or> G_TASKBAR_HWND ?v = os_shell_traywnd ?v"
    using assms(5,6) by (simp add: show_message_taskbar)
  have shown: "\<exists>st3. execute_sequence depth' ''Taskbar'' True later = Some st3
             \<and> os_taskbar_visible st3
             \<and> os_calls st3 = os_calls later @ [ShowWindow (os_shell_traywnd st) True]"
    unfolding run2 action_show_taskbar_def
    using show_taskbar_visible(1,2) [OF c d] assms(5) by (simp add: show_message_taskbar)
  show ?thesis using hidden gate shown by blast
qed

text \<open>A later state: the launch sequence has run and every process is gone.\<close>

definition after_game_world :: world where
  "after_game_world =
     (action_hide_taskbar (show_message ''No-TB'' hide_world))\<lparr> os_processes := [] \<rparr>"

theorem taskbar_hidden_then_shown_witness:
  "os_heap_ok hide_world \<and> os_shell_traywnd hide_world \<noteq> 0
   \<and> hide_taskbar (G_CONFIG hide_world)
   \<and> map_option os_taskbar_visible (execute_sequence 1 ''No-TB'' False hide_world) = Some False
   \<and> map_option os_taskbar_visible (execute_sequence 1 ''Taskbar'' True after_game_world)
       = Some True"
proof -
  have h1: "os_heap_ok hide_world" by (simp add: hide_world_def boot_world_def)
  have h2: "os_shell_traywnd hide_world \<noteq> 0" by (simp add: hide_world_def boot_world_def)
  have h3: "G_TASKBAR_HWND hide_world = 0 \<or> G_TASKBAR_HWND hide_world = os_shell_traywnd hide_world"
    by (simp add: hide_world_def boot_world_def)
  have h4: "os_heap_ok after_game_world"
    by (simp add: after_game_world_def hide_world_def boot_world_def run_defs Let_def)
  have h5: "os_shell_traywnd after_game_world = os_shell_traywnd hide_world"
    by (simp add: after_game_world_def hide_world_def boot_world_def run_defs Let_def)
  have h6: "G_TASKBAR_HWND after_game_world = 0
      \<or> G_TASKBAR_HWND after_game_world = os_shell_traywnd hide_world"
    by (simp add: after_game_world_def hide_world_def boot_world_def run_defs Let_def)
  have h7: "hide_taskbar (G_CONFIG hide_world)" by (simp add: hide_world_def)
  show ?thesis
    using taskbar_hidden_then_shown [OF h1 h2 h3 h4 h5 h6, of 1 1] h1 h2 h7 by auto
qed

section \<open>Instance Lock\<close>

text \<open>
  \<^verbatim>\<open>fscanf(pid_file, "%lu", &old_pid)\<close> on the content of the lock file: blanks, an
  optional sign, decimal digits; \<open>None\<close> when no digit is there (the call does not
  return 1). \<open>decimal\<close> is what \<^verbatim>\<open>fprintf(pid_file, "%lu", ...)\<close> writes.
  \<^verbatim>\<open>GetExitCodeProcess\<close> gives \<open>STILL_ACTIVE\<close> for a process that runs and the exit code
  for one that has exited.
\<close>

definition is_space :: "char \<Rightarrow> bool" where
  "is_space c = (c = CHR '' '' \<or> (9::nat) \<le> of_char c \<and> of_char c \<le> (13::nat))"

definition is_digit :: "char \<Rightarrow> bool" where
  "is_digit c = ((48::nat) \<le> of_char c \<and> of_char c \<le> (57::nat))"

definition digit_value :: "char \<Rightarrow> nat" where
  "digit_value c = of_char c - 48"

abbreviation ULONG_MAX :: nat where "ULONG_MAX \<equiv> 4294967295"

definition fscanf_lu :: "string \<Rightarrow> DWORD option" where
  "fscanf_lu content =
     (let s = dropWhile is_space content;
          negative = (s \<noteq> [] \<and> hd s = CHR ''-'');
          s1 = (if s \<noteq> [] \<and> (hd s = CHR ''-'' \<or> hd s = CHR ''+'') then tl s else s);
          digits = takeWhile is_digit s1
      in if digits = [] then None
         else (let v = foldl (\<lambda>a c. 10 * a + digit_value c) 0 digits
               in Some (if v > ULONG_MAX then ULONG_MAX
                        else if negative then (ULONG_MAX + 1 - v) mod (ULONG_MAX + 1)
                        else v)))"

function decimal :: "nat \<Rightarrow> string" where
  "decimal n = (if n < 10 then [char_of (48 + n)] else decimal (n div 10) @ [char_of (48 + n mod 10)])"
  by pat_completeness auto
termination
  by (relation "measure id") auto

declare decimal.simps [simp del]

definition process_object :: "DWORD \<Rightarrow> world \<Rightarrow> os_process option" where
  "process_object pid st = find (\<lambda>e. th32ProcessID e = pid) (os_processes st)"

definition get_exit_code_process :: "HANDLE \<Rightarrow> world \<Rightarrow> nat option" where
  "get_exit_code_process h st =
     (case os_handles st h of
        None \<Rightarrow> None
      | Some pid \<Rightarrow>
          (case process_object pid st of
             None \<Rightarrow> None
           | Some e \<Rightarrow> Some (case status e of Running \<Rightarrow> STILL_ACTIVE | Exited code \<Rightarrow> code)))"

definition write_pid_file :: "world \<Rightarrow> world" where
  "write_pid_file st =
     (if length (G_PID_FILE st) = 0 then st
      else if os_writable st (G_PID_FILE st)
      then st\<lparr> os_files := (os_files st)(G_PID_FILE st \<mapsto> decimal (os_current_pid st)) \<rparr>
      else st)"

definition check_instances :: "world \<Rightarrow> bool \<times> world" where
  "check_instances st =
     (if length (G_PID_FILE st) = 0 then (True, st)
      else case os_files st (G_PID_FILE st) of
             None \<Rightarrow> (True, write_pid_file st)
           | Some content \<Rightarrow>
               (case fscanf_lu content of
                  None \<Rightarrow> (True, write_pid_file st)
                | Some old_pid \<Rightarrow>
                    (case open_process old_pid st of
                       (h, st1) \<Rightarrow>
                         if h \<noteq> 0
                         then if get_exit_code_process h st1 = Some STILL_ACTIVE
                              then (False,
                                    show_message ''Another instance is already running.''
                                      (close_handle h st1))
                              else (True, write_pid_file (close_handle h st1))
                         else (True, write_pid_file st1))))"

definition cleanup_pid_file :: "world \<Rightarrow> world" where
  "cleanup_pid_file st =
     (if length (G_PID_FILE st) = 0 then st
      else os_call (DeleteFileA (G_PID_FILE st))
             (st\<lparr> os_files := (os_files st)(G_PID_FILE st := None) \<rparr>))"


text \<open>
  What the query of \<open>check_instances\<close> reads for a process id: whether a process object
  of that id exists and its exit code reads \<open>STILL_ACTIVE\<close>. The system is taken to grant
  the query on every process object there is. \<open>acquired\<close>: the call reports success and
  has written the launcher's own id to the lock file, no other file changed. \<open>refused\<close>:
  the call reports failure and has left every file as it was.
\<close>

definition reports_still_active :: "DWORD \<Rightarrow> world \<Rightarrow> bool" where
  "reports_still_active pid st =
     (case process_object pid st of
        None \<Rightarrow> False
      | Some e \<Rightarrow> (case status e of Running \<Rightarrow> True | Exited code \<Rightarrow> code = STILL_ACTIVE))"

definition acquired :: "world \<Rightarrow> bool" where
  "acquired st =
     (fst (check_instances st)
      \<and> os_files (snd (check_instances st)) =
          (os_files st)(G_PID_FILE st \<mapsto> decimal (os_current_pid st)))"

definition refused :: "world \<Rightarrow> bool" where
  "refused st =
     (\<not> fst (check_instances st) \<and> os_files (snd (check_instances st)) = os_files st)"

text \<open>
  A lock file that names no process (999), one that names the running shell process (4),
  and one that names an earlier launcher (96) which has exited with the given exit code and
  whose process object is still there, as it is while anyone holds a handle to it.
\<close>

definition lock_path :: string where
  "lock_path = ''C:'' @ [backslash] @ ''games'' @ [backslash] @ ''rjpids.ini''"

definition stale_world :: world where
  "stale_world = boot_world\<lparr> G_PID_FILE := lock_path, os_files := [lock_path \<mapsto> ''999''] \<rparr>"

definition held_world :: world where
  "held_world = boot_world\<lparr> G_PID_FILE := lock_path, os_files := [lock_path \<mapsto> ''4''] \<rparr>"

definition exited_world :: "nat \<Rightarrow> world" where
  "exited_world code =
     boot_world\<lparr> G_PID_FILE := lock_path, os_files := [lock_path \<mapsto> ''96''],
       os_processes :=
         \<lparr> th32ProcessID = 96, th32ParentProcessID = 4, szExeFile = ''launcher.exe'',
            status = Exited code \<rparr> # os_processes boot_world \<rparr>"

lemma process_object_exists:
  "(process_object pid st \<noteq> None) = (pid \<in> set (map th32ProcessID (os_processes st)))"
  by (auto simp: process_object_def find_None_iff)

lemma query_after_open:
  assumes "pid \<in> set (map th32ProcessID (os_processes st))"
  shows "open_process pid st =
           (Suc (os_last_handle st),
            st\<lparr> os_handles := (os_handles st)(Suc (os_last_handle st) \<mapsto> pid),
                os_last_handle := Suc (os_last_handle st) \<rparr>)"
    and "(get_exit_code_process (Suc (os_last_handle st))
            (st\<lparr> os_handles := (os_handles st)(Suc (os_last_handle st) \<mapsto> pid),
                os_last_handle := Suc (os_last_handle st) \<rparr>) = Some STILL_ACTIVE)
         = reports_still_active pid st"
  using assms
  by (auto simp: open_process_def get_exit_code_process_def reports_still_active_def
      process_object_def split: option.splits proc_status.splits)

lemma check_instances_not_active:
  assumes "G_PID_FILE st \<noteq> []" and "os_writable st (G_PID_FILE st)"
    and f: "os_files st (G_PID_FILE st) = Some content" and p: "fscanf_lu content = Some old_pid"
    and d: "\<not> reports_still_active old_pid st"
  shows "acquired st"
proof (cases "old_pid \<in> set (map th32ProcessID (os_processes st))")
  case True
  show ?thesis
    using assms query_after_open [OF True]
    by (simp add: acquired_def check_instances_def write_pid_file_def close_handle_def
        os_call_def)
next
  case False
  then have "open_process old_pid st = (0, st)" by (simp add: open_process_def)
  then show ?thesis
    using assms by (simp add: acquired_def check_instances_def write_pid_file_def)
qed

lemma check_instances_active:
  assumes "G_PID_FILE st \<noteq> []" and "os_writable st (G_PID_FILE st)"
    and f: "os_files st (G_PID_FILE st) = Some content" and p: "fscanf_lu content = Some old_pid"
    and a: "reports_still_active old_pid st"
  shows "refused st"
proof -
  have "process_object old_pid st \<noteq> None"
    using a by (auto simp: reports_still_active_def split: option.splits)
  then have ex: "old_pid \<in> set (map th32ProcessID (os_processes st))"
    using process_object_exists [of old_pid st] by blast
  show ?thesis
    using assms query_after_open [OF ex]
    by (simp add: refused_def check_instances_def close_handle_def os_call_def
        show_message_def log_message_def)
qed

lemma decimal_100: "decimal 100 = ''100''"
  by code_simp

text \<open>
  C3, as the code has it. With a lock path set and writable, \<open>check_instances\<close> succeeds and
  writes the current process id when there is no lock file, when the stored id cannot be
  read, when no process object has the stored id, and when the stored id's process has
  exited with an exit code other than \<open>STILL_ACTIVE\<close>; it fails and leaves every file as it
  is when the stored id's process runs. The last line is the case in which the code does
  not do what its comment \<^verbatim>\<open>Check if process is still running\<close> says: a process that has
  exited with the exit code 259, the number \<open>STILL_ACTIVE\<close>, is taken for a running one, and
  the start is refused although the owner of the lock is dead.
\<close>

theorem check_instances_lock:
  assumes "G_PID_FILE st \<noteq> []" and "os_writable st (G_PID_FILE st)"
  shows "(os_files st (G_PID_FILE st) = None \<longrightarrow> acquired st)
       \<and> (\<forall>content. os_files st (G_PID_FILE st) = Some content \<and> fscanf_lu content = None
             \<longrightarrow> acquired st)
       \<and> (\<forall>content old_pid. os_files st (G_PID_FILE st) = Some content
             \<and> fscanf_lu content = Some old_pid \<and> process_object old_pid st = None
             \<longrightarrow> acquired st)
       \<and> (\<forall>content old_pid e code. os_files st (G_PID_FILE st) = Some content
             \<and> fscanf_lu content = Some old_pid \<and> process_object old_pid st = Some e
             \<and> status e = Exited code \<and> code \<noteq> STILL_ACTIVE
             \<longrightarrow> acquired st)
       \<and> (\<forall>content old_pid e. os_files st (G_PID_FILE st) = Some content
             \<and> fscanf_lu content = Some old_pid \<and> process_object old_pid st = Some e
             \<and> status e = Running
             \<longrightarrow> refused st)
       \<and> (\<forall>content old_pid e. os_files st (G_PID_FILE st) = Some content
             \<and> fscanf_lu content = Some old_pid \<and> process_object old_pid st = Some e
             \<and> status e = Exited STILL_ACTIVE
             \<longrightarrow> refused st)"
proof -
  have none: "os_files st (G_PID_FILE st) = None \<longrightarrow> acquired st"
    using assms by (simp add: acquired_def check_instances_def write_pid_file_def)
  have unreadable: "\<forall>content. os_files st (G_PID_FILE st) = Some content
      \<and> fscanf_lu content = None \<longrightarrow> acquired st"
    using assms by (simp add: acquired_def check_instances_def write_pid_file_def)
  have absent: "\<forall>content old_pid. os_files st (G_PID_FILE st) = Some content
      \<and> fscanf_lu content = Some old_pid \<and> process_object old_pid st = None \<longrightarrow> acquired st"
    using check_instances_not_active [OF assms]
    by (simp add: reports_still_active_def)
  have exited: "\<forall>content old_pid e code. os_files st (G_PID_FILE st) = Some content
      \<and> fscanf_lu content = Some old_pid \<and> process_object old_pid st = Some e
      \<and> status e = Exited code \<and> code \<noteq> STILL_ACTIVE \<longrightarrow> acquired st"
    using check_instances_not_active [OF assms]
    by (simp add: reports_still_active_def)
  have running: "\<forall>content old_pid e. os_files st (G_PID_FILE st) = Some content
      \<and> fscanf_lu content = Some old_pid \<and> process_object old_pid st = Some e
      \<and> status e = Running \<longrightarrow> refused st"
    using check_instances_active [OF assms]
    by (simp add: reports_still_active_def)
  have exited_259: "\<forall>content old_pid e. os_files st (G_PID_FILE st) = Some content
      \<and> fscanf_lu content = Some old_pid \<and> process_object old_pid st = Some e
      \<and> status e = Exited STILL_ACTIVE \<longrightarrow> refused st"
    using check_instances_active [OF assms]
    by (simp add: reports_still_active_def)
  show ?thesis
    using none unreadable absent exited running exited_259 by (intro conjI)
qed

text \<open>
  The four worlds: the lock that names no process is taken over; the lock of the running
  process is respected; the lock of the earlier launcher that exited with code 0 is taken
  over; the lock of the earlier launcher that exited with code 259 is respected, though
  that launcher is not among the processes that run.
\<close>

theorem check_instances_lock_witness:
  "G_PID_FILE stale_world \<noteq> [] \<and> os_writable stale_world (G_PID_FILE stale_world)
   \<and> fst (check_instances stale_world)
   \<and> os_files (snd (check_instances stale_world)) lock_path = Some ''100''
   \<and> \<not> fst (check_instances held_world)
   \<and> os_files (snd (check_instances held_world)) lock_path = Some ''4''
   \<and> fst (check_instances (exited_world 0))
   \<and> os_files (snd (check_instances (exited_world 0))) lock_path = Some ''100''
   \<and> map th32ProcessID (snapshot (exited_world STILL_ACTIVE)) = [4, 100]
   \<and> \<not> fst (check_instances (exited_world STILL_ACTIVE))
   \<and> os_files (snd (check_instances (exited_world STILL_ACTIVE))) lock_path = Some ''96''"
proof -
  have s1: "G_PID_FILE stale_world \<noteq> []" by (simp add: stale_world_def lock_path_def)
  have s2: "os_writable stale_world (G_PID_FILE stale_world)"
    by (simp add: stale_world_def boot_world_def)
  have s3: "os_files stale_world (G_PID_FILE stale_world) = Some ''999''"
    by (simp add: stale_world_def)
  have s4: "fscanf_lu ''999'' = Some 999"
    by (simp add: fscanf_lu_def is_space_def is_digit_def digit_value_def Let_def)
  have s5: "process_object 999 stale_world = None"
    by (simp add: process_object_def stale_world_def boot_world_def)
  have s6: "G_PID_FILE stale_world = lock_path" "os_current_pid stale_world = 100"
    by (simp_all add: stale_world_def boot_world_def)
  have h1: "G_PID_FILE held_world \<noteq> []" by (simp add: held_world_def lock_path_def)
  have h2: "os_writable held_world (G_PID_FILE held_world)"
    by (simp add: held_world_def boot_world_def)
  have h3: "os_files held_world (G_PID_FILE held_world) = Some ''4''"
    by (simp add: held_world_def)
  have h4: "fscanf_lu ''4'' = Some 4"
    by (simp add: fscanf_lu_def is_space_def is_digit_def digit_value_def Let_def)
  have h5: "process_object 4 held_world =
      Some \<lparr> th32ProcessID = 4, th32ParentProcessID = 0, szExeFile = ''explorer.exe'',
             status = Running \<rparr>"
    by (simp add: process_object_def held_world_def boot_world_def)
  have h6: "G_PID_FILE held_world = lock_path" by (simp add: held_world_def)
  have e1: "G_PID_FILE (exited_world code) \<noteq> []" for code
    by (simp add: exited_world_def lock_path_def)
  have e2: "os_writable (exited_world code) (G_PID_FILE (exited_world code))" for code
    by (simp add: exited_world_def boot_world_def)
  have e3: "os_files (exited_world code) (G_PID_FILE (exited_world code)) = Some ''96''" for code
    by (simp add: exited_world_def)
  have e4: "fscanf_lu ''96'' = Some 96"
    by (simp add: fscanf_lu_def is_space_def is_digit_def digit_value_def Let_def)
  have e5: "process_object 96 (exited_world code) =
      Some \<lparr> th32ProcessID = 96, th32ParentProcessID = 4, szExeFile = ''launcher.exe'',
             status = Exited code \<rparr>" for code
    by (simp add: process_object_def exited_world_def)
  have e6: "G_PID_FILE (exited_world code) = lock_path"
    "os_current_pid (exited_world code) = 100" for code
    by (simp_all add: exited_world_def boot_world_def)
  have e7: "map th32ProcessID (snapshot (exited_world STILL_ACTIVE)) = [4, 100]"
    by (simp add: snapshot_def exited_world_def boot_world_def)
  have "acquired stale_world"
    using check_instances_lock [OF s1 s2] s3 s4 s5 by blast
  then have stale: "fst (check_instances stale_world)
      \<and> os_files (snd (check_instances stale_world)) lock_path = Some ''100''"
    by (simp add: acquired_def s6 decimal_100)
  have "refused held_world"
    using check_instances_lock [OF h1 h2] h3 h4 h5 by force
  then have held: "\<not> fst (check_instances held_world)
      \<and> os_files (snd (check_instances held_world)) lock_path = Some ''4''"
    using h3 h6 by (simp add: refused_def)
  have "acquired (exited_world 0)"
    using check_instances_lock [OF e1 [of 0] e2 [of 0]] e3 [of 0] e4 e5 [of 0] by force
  then have gone: "fst (check_instances (exited_world 0))
      \<and> os_files (snd (check_instances (exited_world 0))) lock_path = Some ''100''"
    by (simp add: acquired_def e6 decimal_100)
  have "refused (exited_world STILL_ACTIVE)"
    using check_instances_lock [OF e1 [of STILL_ACTIVE] e2 [of STILL_ACTIVE]] e3 [of STILL_ACTIVE] e4
      e5 [of STILL_ACTIVE] by force
  then have zombie: "\<not> fst (check_instances (exited_world STILL_ACTIVE))
      \<and> os_files (snd (check_instances (exited_world STILL_ACTIVE))) lock_path = Some ''96''"
    using e3 [of STILL_ACTIVE] e6 [of STILL_ACTIVE] by (simp add: refused_def)
  show ?thesis
    using s1 s2 stale held gone e7 zombie by simp
qed

section \<open>Cleanup Guard\<close>

definition ensure_cleanup :: "nat \<Rightarrow> world \<Rightarrow> world option" where
  "ensure_cleanup depth st0 =
     (let st1 = show_message ''Ensuring cleanup...'' st0;
          st2 = (if G_TASKBAR_WAS_HIDDEN st1 then action_show_taskbar st1 else st1)
      in case kill_all_tracked_processes depth st2 of
           None \<Rightarrow> None
         | Some st3 \<Rightarrow>
             Some (cleanup_pid_file
                    (if G_BORDERLESS_PROCESS st3 \<noteq> 0
                     then (close_handle (G_BORDERLESS_PROCESS st3) st3)
                            \<lparr> G_BORDERLESS_PROCESS := 0 \<rparr>
                     else st3)))"

section \<open>Main entry point\<close>

text \<open>
  The two path idioms of \<^verbatim>\<open>main\<close> and \<^verbatim>\<open>load_configuration\<close>: cut the string after
  its last separator (\<^verbatim>\<open>*(last_slash + 1) = '\0'\<close>), or at it (\<^verbatim>\<open>*last_sep = '\0'\<close>).
  The separator is the last backslash if there is one, else the last slash.
\<close>

definition through_last :: "char \<Rightarrow> string \<Rightarrow> string" where
  "through_last c s = rev (dropWhile (\<lambda>x. x \<noteq> c) (rev s))"

definition cut_after_separator :: "string \<Rightarrow> string" where
  "cut_after_separator s =
     (if backslash \<in> set s then through_last backslash s
      else if CHR ''/'' \<in> set s then through_last (CHR ''/'') s
      else s)"

definition cut_at_separator :: "string \<Rightarrow> string" where
  "cut_at_separator s =
     (if backslash \<in> set s then butlast (through_last backslash s)
      else if CHR ''/'' \<in> set s then butlast (through_last (CHR ''/'') s)
      else s)"

text \<open>
  \<^verbatim>\<open>ini_parse\<close> belongs to the inih library, which is not part of the sources. Its
  result for a file is a field of the state: the return value and the configuration
  that \<^verbatim>\<open>config_handler\<close> has filled in when it returns.
\<close>

definition load_configuration :: "string \<Rightarrow> world \<Rightarrow> int \<times> world" where
  "load_configuration ini st0 =
     (let log_path0 = take (MAX_PATH_LEN - 1) ini;
          st = (if backslash \<in> set log_path0 \<or> CHR ''/'' \<in> set log_path0
                then (let dir = cut_after_separator log_path0;
                          log_path = strncat dir ''launcher.log'' (MAX_PATH_LEN - length dir - 1)
                      in st0\<lparr> G_LOG_PATH := take (MAX_PATH_LEN - 1) log_path \<rparr>)
                else st0)
      in case os_ini_parse st ini of
           (rc, cfg) \<Rightarrow>
             if rc < 0
             then (1, show_message (''Can'' @ sq @ ''t load '' @ sq @ ''Game.ini'' @ sq) st)
             else (0, show_message ''Configuration loaded successfully.''
                        (st\<lparr> G_CONFIG := cfg \<rparr>)))"

definition shell_execute :: "string \<Rightarrow> string \<Rightarrow> string option \<Rightarrow> world \<Rightarrow> nat \<times> world" where
  "shell_execute verb file dir st =
     (os_shell_execute st verb file, os_call (ShellExecuteA verb file dir) st)"

definition run_game_process :: "world \<Rightarrow> world option" where
  "run_game_process st0 =
     (let st = show_message ''Running game...'' st0; cfg = G_CONFIG st
      in if length (executable cfg) = 0
         then Some (show_message ''No game executable configured.'' st)
         else (let working_dir = (if length (directory cfg) > 0 then Some (directory cfg)
                                  else None)
               in if run_as_admin cfg
                  then (case shell_execute ''runas'' (executable cfg) working_dir st of
                          (result, st1) \<Rightarrow>
                            if result \<le> 32
                            then Some (show_message ''Failed to launch game as administrator.'' st1)
                            else Some (st1\<lparr> G_GAME_PROCESS_INFO :=
                                              (G_GAME_PROCESS_INFO st1)\<lparr> hProcess := 0 \<rparr> \<rparr>))
                  else (case run_process (snprintf MAX_CMD_LEN (dq @ executable cfg @ dq))
                               working_dir False st of
                          None \<Rightarrow> None
                        | Some (success, p, st1) \<Rightarrow>
                            (let st2 = st1\<lparr> G_GAME_PROCESS_INFO := p \<rparr>
                             in Some (if \<not> success then show_message ''Failed to launch game.'' st2
                                      else st2)))))"

text \<open>
  \<^verbatim>\<open>main\<close>: the arguments are \<open>argv\<close>, the result is the return value and the final
  state, or \<open>None\<close> when the program does not get to its end.
\<close>

definition main :: "nat \<Rightarrow> string list \<Rightarrow> world \<Rightarrow> (int \<times> world) option" where
  "main depth argv st0 =
     (if length argv < 2
      then Some (1, sleep_ms 2000 (show_message ''Usage: launcher.exe <path_to_shortcut>'' st0))
      else
        (let shortcut_path = argv ! 1;
             dir = cut_after_separator (take (MAX_PATH_LEN - 1) shortcut_path);
             ini = strncat dir ''Game.ini'' (MAX_PATH_LEN - length dir - 1);
             home = cut_at_separator (take (MAX_PATH_LEN - 1) ini);
             st1 = st0\<lparr> G_HOME_DIR := home,
                        G_PID_FILE := snprintf MAX_PATH_LEN (home @ [backslash] @ ''rjpids.ini'') \<rparr>;
             st2 = show_message ''Launcher starting...'' st1;
             st3 = st2\<lparr> G_IS_ADMIN := os_is_admin st2 \<rparr>;
             st4 = (if G_IS_ADMIN st3
                    then show_message ''Running with administrator privileges.'' st3 else st3)
         in case check_instances st4 of
              (ok, st5) \<Rightarrow>
                if \<not> ok
                then Some (1, sleep_ms 2000
                               (show_message ''Another instance is already running. Exiting.'' st5))
                else
                  (case load_configuration ini
                          (st5\<lparr> G_CONFIG := zero_config, G_GAME_PROCESS_INFO := zero_pi \<rparr>) of
                     (rc, st6) \<Rightarrow>
                       if rc \<noteq> 0
                       then Some (1, sleep_ms 2000
                                      (show_message ''Failed to load configuration.'' st6))
                       else
                         (case execute_sequence depth (launch_sequence (G_CONFIG st6)) False
                                 (st6\<lparr> G_TASKBAR_HWND := find_window st6 \<rparr>) of
                            None \<Rightarrow> None
                          | Some st7 \<Rightarrow>
                              (case run_game_process st7 of
                                 None \<Rightarrow> None
                               | Some st8 \<Rightarrow>
                                   (case (if hProcess (G_GAME_PROCESS_INFO st8) \<noteq> 0
                                          then (case wait_for_single_object
                                                       (hProcess (G_GAME_PROCESS_INFO st8)) st8 of
                                                  None \<Rightarrow> None
                                                | Some w \<Rightarrow>
                                                    Some (close_handle
                                                           (hThread (G_GAME_PROCESS_INFO st8))
                                                           (close_handle
                                                             (hProcess (G_GAME_PROCESS_INFO st8)) w)))
                                          else Some (sleep_ms 5000 st8)) of
                                      None \<Rightarrow> None
                                    | Some st9 \<Rightarrow>
                                        (case execute_sequence depth
                                                (exit_sequence (G_CONFIG st9)) True st9 of
                                           None \<Rightarrow> None
                                         | Some st10 \<Rightarrow>
                                             (case ensure_cleanup depth st10 of
                                                None \<Rightarrow> None
                                              | Some st11 \<Rightarrow>
                                                  Some (0, show_message ''Launcher finished.''
                                                             st11)))))))))"

section \<open>Tray menu\<close>

definition tray_cleanup :: "world \<Rightarrow> world" where
  "tray_cleanup st =
     (if running (G_TRAY_MENU st)
      then (let st1 = os_call Shell_NotifyIcon_Delete st;
                st2 = (if hmenu (G_TRAY_MENU st1) \<noteq> 0
                       then os_call (DestroyMenu (hmenu (G_TRAY_MENU st1))) st1 else st1);
                st3 = (if hwnd (G_TRAY_MENU st2) \<noteq> 0
                       then os_call (DestroyWindow (hwnd (G_TRAY_MENU st2))) st2 else st2)
            in log_message ''INFO'' ''Tray menu cleaned up''
                 (st3\<lparr> G_TRAY_MENU := (G_TRAY_MENU st3)\<lparr> running := False \<rparr> \<rparr>))
      else st)"

definition tray_stop_game :: "nat \<Rightarrow> world \<Rightarrow> world option" where
  "tray_stop_game depth st0 =
     (case execute_sequence depth (exit_sequence (G_CONFIG st0)) True
             (log_message ''INFO'' ''Stop requested from tray menu'' st0) of
        None \<Rightarrow> None
      | Some st \<Rightarrow>
          if hProcess (G_GAME_PROCESS_INFO st) \<noteq> 0
          then (case terminate_process_tree depth (dwProcessId (G_GAME_PROCESS_INFO st)) st of
                  None \<Rightarrow> None
                | Some st1 \<Rightarrow>
                    Some (log_message ''INFO'' ''Game process terminated''
                           ((close_handle (hThread (G_GAME_PROCESS_INFO st))
                              (close_handle (hProcess (G_GAME_PROCESS_INFO st)) st1))
                              \<lparr> G_GAME_PROCESS_INFO := zero_pi \<rparr>)))
          else Some st)"

text \<open>\<^verbatim>\<open>ExitProcess(0)\<close> ends the program: the call is the last thing recorded.\<close>

definition tray_exit_launcher :: "nat \<Rightarrow> world \<Rightarrow> world option" where
  "tray_exit_launcher depth st0 =
     (case tray_stop_game depth (log_message ''INFO'' ''Exit requested from tray menu'' st0) of
        None \<Rightarrow> None
      | Some st \<Rightarrow> Some (os_call (ExitProcess 0) (tray_cleanup st)))"

definition tray_kill_all :: "nat \<Rightarrow> world \<Rightarrow> world option" where
  "tray_kill_all depth st0 =
     (let st = log_message ''INFO'' ''Kill all requested from tray menu'' st0;
          st1 = (if hProcess (G_GAME_PROCESS_INFO st) \<noteq> 0
                 then log_message ''INFO'' ''Game process killed''
                        ((close_handle (hThread (G_GAME_PROCESS_INFO st))
                           (close_handle (hProcess (G_GAME_PROCESS_INFO st))
                             (terminate_process (hProcess (G_GAME_PROCESS_INFO st)) 0 st)))
                           \<lparr> G_GAME_PROCESS_INFO := zero_pi \<rparr>)
                 else st)
      in case action_kill_process_list depth st1 of
           None \<Rightarrow> None
         | Some st2 \<Rightarrow>
             (case ensure_cleanup depth st2 of
                None \<Rightarrow> None
              | Some st3 \<Rightarrow> tray_exit_launcher depth st3))"

definition tray_restart_launcher :: "nat \<Rightarrow> world \<Rightarrow> world option" where
  "tray_restart_launcher depth st0 =
     (let st = log_message ''INFO'' ''Restart requested from tray menu'' st0
      in if length (lnk_path (G_TRAY_MENU st)) > 0
         then (case tray_stop_game depth st of
                 None \<Rightarrow> None
               | Some st1 \<Rightarrow>
                   tray_exit_launcher depth
                     (log_message ''INFO'' ''Launcher restarted''
                       (snd (shell_execute ''open'' (lnk_path (G_TRAY_MENU st1)) None st1))))
         else Some (show_message ''No launcher link file found for restart'' st))"

text \<open>
  The commands of the tray menu, as \<^verbatim>\<open>tray_wnd_proc\<close> dispatches \<^verbatim>\<open>WM_COMMAND\<close>. The
  two configuration commands open a dialog or an editor and end no process; they are
  left out.
\<close>

datatype tray_command = ID_TRAY_RESTART | ID_TRAY_STOP | ID_TRAY_KILL | ID_TRAY_EXIT

fun tray_wnd_proc :: "nat \<Rightarrow> tray_command \<Rightarrow> world \<Rightarrow> world option" where
  "tray_wnd_proc depth ID_TRAY_RESTART st = tray_restart_launcher depth st"
| "tray_wnd_proc depth ID_TRAY_STOP st = tray_stop_game depth st"
| "tray_wnd_proc depth ID_TRAY_KILL st = tray_kill_all depth st"
| "tray_wnd_proc depth ID_TRAY_EXIT st = tray_exit_launcher depth st"


section \<open>Exit paths and the Cleanup Guard\<close>

text \<open>
  A run in progress: the lock file holds the launcher's id, the controller mapper
  (process 11 of the synthetic graph) is tracked, this run has hidden the taskbar, the
  tray icon is up; the exit sequence is empty and the game has no handle.
\<close>

definition running_world :: world where
  "running_world = tree_world\<lparr>
     G_TRACKED_PROCESSES :=
       [\<lparr> name = ''controller_mapper'',
          pi = \<lparr> hProcess = 8, hThread = 9, dwProcessId = 11, dwThreadId = 21 \<rparr> \<rparr>],
     G_TASKBAR_HWND := 7, G_TASKBAR_WAS_HIDDEN := True, G_PID_FILE := lock_path,
     G_TRAY_MENU := \<lparr> hwnd = 5, hmenu = 0, running = True, ini_path = [], lnk_path = [] \<rparr>,
     os_handles := [8 \<mapsto> 11], os_last_handle := 9,
     os_files := [lock_path \<mapsto> ''100''], os_taskbar_visible := False \<rparr>"

text \<open>A start whose \<^verbatim>\<open>Game.ini\<close> cannot be opened (\<^verbatim>\<open>ini_parse\<close> returns -1).\<close>

definition shortcut_path :: string where
  "shortcut_path = ''C:'' @ [backslash] @ ''games'' @ [backslash] @ ''Game.lnk''"

definition unconfigured_world :: world where
  "unconfigured_world = boot_world\<lparr> os_ini_parse := (\<lambda>path. (- 1, zero_config)) \<rparr>"

text \<open>
  What is left when the process exits: the last system call, the lock file, the tracked
  names, whether the taskbar is visible, the processes terminated.
\<close>

definition exit_report ::
  "world \<Rightarrow> os_call \<times> string option \<times> string list \<times> bool \<times> DWORD list" where
  "exit_report st =
     (last (os_calls st), os_files st lock_path, map name (G_TRACKED_PROCESSES st),
      os_taskbar_visible st, kills st)"

lemmas tray_defs = tray_exit_launcher_def tray_stop_game_def tray_cleanup_def tray_kill_all_def
  execute_sequence_def ensure_cleanup_def cleanup_pid_file_def action_kill_process_list_def
  kill_all_tracked_processes_def kill_tracked_def

lemmas tree_defs = terminate_process_tree_Suc children_def snapshot_def terminate_parent_def
  open_process_def terminate_process_def close_handle_def set_exited_def kills_def

lemma exit_path_report:
  "map_option exit_report (tray_wnd_proc 3 ID_TRAY_EXIT running_world) =
     Some (ExitProcess 0, Some ''100'', [''controller_mapper''], False, [])"
  by (simp add: tray_defs exit_report_def running_world_def tree_world_def boot_world_def
      zero_config_def zero_pi_def log_message_def os_call_def kills_def lock_path_def)

lemma kill_path_report:
  "map_option exit_report (tray_wnd_proc 3 ID_TRAY_KILL running_world) =
     Some (ExitProcess 0, None, [], True, [13, 11])"
  by (simp add: tray_defs tree_defs run_defs exit_report_def running_world_def tree_world_def
      boot_world_def zero_config_def zero_pi_def lock_path_def numeral_3_eq_3 Let_def
      free_nodes_empty
      del: terminate_process_tree.simps(2))

text \<open>What a run of \<open>main\<close> leaves: return value, lock path, lock file, system calls.\<close>

definition main_report :: "int \<times> world \<Rightarrow> int \<times> string \<times> string option \<times> os_call list" where
  "main_report r = (fst r, G_PID_FILE (snd r), os_files (snd r) lock_path, os_calls (snd r))"

lemma early_failure_report:
  "map_option main_report (main 3 [''launcher.exe'', shortcut_path] unconfigured_world) =
     Some (1, lock_path, Some ''100'', [Sleep 2000])"
  by code_simp


lemma normal_run_report:
  "map_option main_report (main 3 [''launcher.exe'', shortcut_path] boot_world) =
     Some (0, lock_path, None, [Sleep 5000, DeleteFileA lock_path])"
  by code_simp

text \<open>
  C1, evaluated. The tray command "Exit Launcher" ends the process with
  \<^verbatim>\<open>ExitProcess\<close> while the lock file still holds the launcher's id, the controller
  mapper is still tracked and was not terminated, and the taskbar this run has hidden
  is still hidden: \<open>tray_exit_launcher\<close> does not call \<open>ensure_cleanup\<close>. A start that
  fails to load its configuration returns 1 after the lock file was written and leaves
  it there. The sibling paths do clean up: the tray command "Kill" and the end of a
  normal run remove the lock file, drain the registry and show the taskbar.
\<close>

theorem exit_paths_without_cleanup:
  "map_option exit_report (tray_wnd_proc 3 ID_TRAY_EXIT running_world) =
     Some (ExitProcess 0, Some ''100'', [''controller_mapper''], False, [])
   \<and> map_option main_report (main 3 [''launcher.exe'', shortcut_path] unconfigured_world) =
     Some (1, lock_path, Some ''100'', [Sleep 2000])
   \<and> map_option exit_report (tray_wnd_proc 3 ID_TRAY_KILL running_world) =
     Some (ExitProcess 0, None, [], True, [13, 11])
   \<and> map_option main_report (main 3 [''launcher.exe'', shortcut_path] boot_world) =
     Some (0, lock_path, None, [Sleep 5000, DeleteFileA lock_path])"
  using exit_path_report early_failure_report kill_path_report normal_run_report by simp

end
